theory Spec2Isabelle
  imports Complex_Main "HOL-Library.Sublist" "HOL-Library.Multiset"
begin

section \<open>Strings\<close>

text \<open>
  JavaScript strings are modelled as \<^typ>\<open>string\<close>; the model covers ASCII text, where
  \<open>toLowerCase\<close> maps \<open>A..Z\<close> to \<open>a..z\<close> and leaves every other character alone, and
  where the white space of \<open>trim\<close> and of the regular expression class \<open>\s\<close> is tab,
  line feed, vertical tab, form feed, carriage return and space.
\<close>

definition toLowerChar :: "char \<Rightarrow> char" where
  "toLowerChar c =
     (case map_of (zip ''ABCDEFGHIJKLMNOPQRSTUVWXYZ'' ''abcdefghijklmnopqrstuvwxyz'') c of
        Some l \<Rightarrow> l
      | None \<Rightarrow> c)"

definition toLowerCase :: "string \<Rightarrow> string" where
  "toLowerCase s = map toLowerChar s"

definition isDigit :: "char \<Rightarrow> bool" where
  "isDigit c = (c \<in> set ''0123456789'')"

definition isHex :: "char \<Rightarrow> bool" where
  "isHex c = (c \<in> set ''0123456789abcdefABCDEF'')"

definition isSpace :: "char \<Rightarrow> bool" where
  "isSpace c = (c \<in> set [CHR 0x09, CHR 0x0A, CHR 0x0B, CHR 0x0C, CHR 0x0D, CHR '' ''])"

text \<open>The separator class \<open>[-_\s]\<close> of the clean-up expressions.\<close>

definition isSep :: "char \<Rightarrow> bool" where
  "isSep c = (c = CHR ''-'' \<or> c = CHR ''_'' \<or> isSpace c)"

definition trim :: "string \<Rightarrow> string" where
  "trim s = rev (dropWhile isSpace (rev (dropWhile isSpace s)))"

text \<open>\<open>s.includes(sub)\<close>: \<open>sub\<close> occurs in \<open>s\<close> as a contiguous substring.\<close>

fun str_includes :: "string \<Rightarrow> string \<Rightarrow> bool" where
  "str_includes [] sub = (sub = [])"
| "str_includes (c # cs) sub = (take (length sub) (c # cs) = sub \<or> str_includes cs sub)"

text \<open>Decimal rendering of a non-negative integer (\<open>Number.prototype.toString\<close>).\<close>

fun toDec :: "nat \<Rightarrow> string" where
  "toDec n =
     (if n < 10 then [''0123456789'' ! n]
      else toDec (n div 10) @ [''0123456789'' ! (n mod 10)])"

declare toDec.simps [simp del]

text \<open>\<open>parts.join(sep)\<close>.\<close>

fun join :: "string \<Rightarrow> string list \<Rightarrow> string" where
  "join sep [] = []"
| "join sep [x] = x"
| "join sep (x # y # ys) = x @ sep @ join sep (y # ys)"

section \<open>Scene nodes and metadata records\<close>

text \<open>
  A scene node carries the fields the engine reads. An absent or empty name is the empty
  string (both are falsy in the source). \<open>userData.revitId\<close>, \<open>userData.guid\<close> and
  \<open>userData.elementId\<close> hold the value's string form, the empty string when the value is
  absent or falsy. The parent back-reference of the source is the list of ancestors,
  nearest first, that every traversal of the model carries along.
\<close>

record geometry =
  g_name :: string
  g_indexCount :: "nat option"
  g_positionCount :: "nat option"

datatype material = NoMaterial | Material string | Materials "string list"

record userData =
  ud_revitId :: string
  ud_guid :: string
  ud_elementId :: string
  ud_isText :: bool

record node_info =
  n_name :: string
  n_type :: string
  n_isMesh :: bool
  n_uuid :: string
  n_id :: nat
  n_geometry :: "geometry option"
  n_material :: material
  n_userData :: userData
  n_visible :: bool

datatype node = Node node_info "node list"

fun info :: "node \<Rightarrow> node_info" where
  "info (Node n cs) = n"

fun children :: "node \<Rightarrow> node list" where
  "children (Node n cs) = cs"

text \<open>
  \<open>Object3D.traverse\<close>: the node itself, then each child's traversal in order. Every
  visited node comes with its ancestors.
\<close>

fun traverse :: "node_info list \<Rightarrow> node \<Rightarrow> (node \<times> node_info list) list" where
  "traverse anc (Node n cs) = (Node n cs, anc) # concat (map (traverse (n # anc)) cs)"

definition getNodeDepth :: "node_info list \<Rightarrow> nat" where
  "getNodeDepth anc = length anc"

text \<open>
  A metadata record with the string fields of a well-typed export, and the index: the
  \<open>Map\<close> of the source in its insertion order, \<open>None\<close> when no metadata was loaded.
  The records as the parser stores them, whose fields need not be strings, are the
  \<open>rawMetadata\<close> of the later sections.
\<close>

record metadata =
  elementId :: string
  externalId :: string
  familyName :: string
  typeName :: string
  category :: string
  displayName :: string

type_synonym metadataIndex = "(string \<times> metadata) list"

section \<open>getCategoryFromOST\<close>

definition categoryMap :: "(string \<times> string) list" where
  "categoryMap =
     [(''OST_CurtainWallPanels'', ''Curtain Panels''),
      (''OST_CurtainWallMullions'', ''Curtain Wall Mullions''),
      (''OST_Walls'', ''Walls''),
      (''OST_Floors'', ''Floors''),
      (''OST_Roofs'', ''Roofs''),
      (''OST_Windows'', ''Windows''),
      (''OST_Doors'', ''Doors''),
      (''OST_Columns'', ''Columns''),
      (''OST_StructuralColumns'', ''Structural Columns''),
      (''OST_StructuralFraming'', ''Structural Framing''),
      (''OST_Furniture'', ''Furniture''),
      (''OST_GenericModel'', ''Generic Models'')]"

text \<open>
  \<open>categoryMap[ostCategory] || ostCategory\<close>. The table of the source is a plain object;
  the model covers the codes that name no member of \<open>Object.prototype\<close>, for which the
  lookup is the lookup in the table.
\<close>

definition getCategoryFromOST :: "string \<Rightarrow> string" where
  "getCategoryFromOST ostCategory =
     (case map_of categoryMap ostCategory of Some label \<Rightarrow> label | None \<Rightarrow> ostCategory)"

section \<open>getElementMetadata\<close>

text \<open>
  The GUID expression: 8-4-4-4-12 hexadecimal digits, then greedily an optional dash and 8
  more. \<open>hexRun k s\<close> reads exactly \<open>k\<close> hexadecimal digits and returns the rest.
\<close>

definition hexRun :: "nat \<Rightarrow> string \<Rightarrow> string option" where
  "hexRun k s =
     (if k \<le> length s \<and> list_all isHex (take k s) then Some (drop k s) else None)"

definition dash :: "string \<Rightarrow> string option" where
  "dash s = (case s of [] \<Rightarrow> None | c # cs \<Rightarrow> if c = CHR ''-'' then Some cs else None)"

definition guidRest :: "string \<Rightarrow> string option" where
  "guidRest s =
     (case Option.bind (Option.bind (Option.bind (Option.bind (Option.bind (Option.bind
             (Option.bind (Option.bind (hexRun 8 s) dash) (hexRun 4)) dash) (hexRun 4)) dash)
             (hexRun 4)) dash) (hexRun 12) of
        None \<Rightarrow> None
      | Some r \<Rightarrow>
          (case Option.bind (dash r) (hexRun 8) of Some r' \<Rightarrow> Some r' | None \<Rightarrow> Some r))"

definition guidAt :: "string \<Rightarrow> string option" where
  "guidAt s = map_option (\<lambda>r. take (length s - length r) s) (guidRest s)"

text \<open>\<open>str.match(guid)[1].toLowerCase()\<close>: the leftmost match, lower-cased.\<close>

fun guidMatch :: "string \<Rightarrow> string option" where
  "guidMatch [] = None"
| "guidMatch (c # cs) =
     (case guidAt (c # cs) of
        Some g \<Rightarrow> Some (toLowerCase g)
      | None \<Rightarrow> guidMatch cs)"

text \<open>
  The element id expression \<open>/(?:Element_|ID_|element-|id-)(\d+)/i\<close>: a prefix, in any
  case, followed by at least one digit; the capture is the whole digit run.
\<close>

definition idAt :: "string \<Rightarrow> string option" where
  "idAt s =
     (let l = toLowerCase s;
          k = (if take 8 l = ''element_'' \<or> take 8 l = ''element-'' then Some (8::nat)
               else if take 3 l = ''id_'' \<or> take 3 l = ''id-'' then Some 3
               else None)
      in case k of
           None \<Rightarrow> None
         | Some k \<Rightarrow>
             (if takeWhile isDigit (drop k s) = [] then None
              else Some (takeWhile isDigit (drop k s))))"

fun idMatch :: "string \<Rightarrow> string option" where
  "idMatch [] = None"
| "idMatch (c # cs) =
     (case idAt (c # cs) of Some d \<Rightarrow> Some d | None \<Rightarrow> idMatch cs)"

definition geometryName :: "node_info \<Rightarrow> string" where
  "geometryName n = (case n_geometry n of Some g \<Rightarrow> g_name g | None \<Rightarrow> [])"

text \<open>\<open>node.material?.name\<close>: an array of materials has no name.\<close>

definition materialName :: "node_info \<Rightarrow> string" where
  "materialName n = (case n_material n of Material s \<Rightarrow> s | _ \<Rightarrow> [])"

definition searchStrings :: "node_info \<Rightarrow> string list" where
  "searchStrings n =
     filter (\<lambda>s. s \<noteq> [])
       [n_name n, geometryName n, materialName n, toDec (n_id n),
        ud_revitId (n_userData n), ud_guid (n_userData n), ud_elementId (n_userData n)]"

definition guidHit :: "string \<Rightarrow> metadata \<Rightarrow> bool" where
  "guidHit guid m = (externalId m \<noteq> [] \<and> str_includes (toLowerCase (externalId m)) guid)"

fun guidLoop :: "metadataIndex \<Rightarrow> string list \<Rightarrow> metadata option" where
  "guidLoop idx [] = None"
| "guidLoop idx (str # strs) =
     (case guidMatch str of
        None \<Rightarrow> guidLoop idx strs
      | Some guid \<Rightarrow>
          (case find (guidHit guid) (map snd idx) of
             Some m \<Rightarrow> Some m
           | None \<Rightarrow> guidLoop idx strs))"

definition nodeElementId :: "node_info \<Rightarrow> string option" where
  "nodeElementId n =
     (case (if n_name n \<noteq> [] then idMatch (n_name n) else None) of
        Some d \<Rightarrow> Some d
      | None \<Rightarrow>
     (case (if geometryName n \<noteq> [] then idMatch (geometryName n) else None) of
        Some d \<Rightarrow> Some d
      | None \<Rightarrow>
     (case (if materialName n \<noteq> [] then idMatch (materialName n) else None) of
        Some d \<Rightarrow> Some d
      | None \<Rightarrow>
     (if ud_elementId (n_userData n) \<noteq> [] then Some (ud_elementId (n_userData n))
      else None))))"

definition getElementMetadata :: "metadataIndex option \<Rightarrow> node_info \<Rightarrow> metadata option" where
  "getElementMetadata mref n =
     (case mref of
        None \<Rightarrow> None
      | Some idx \<Rightarrow>
          if idx = [] then None
          else
            (case guidLoop idx (searchStrings n) of
               Some m \<Rightarrow> Some m
             | None \<Rightarrow>
                 (case nodeElementId n of
                    None \<Rightarrow> None
                  | Some eid \<Rightarrow> map_of idx eid)))"

section \<open>extractMeaningfulName and getMeshDisplayName\<close>

text \<open>\<open>/\d{4,}/\<close>: the leftmost run of at least four digits, taken to its end.\<close>

fun digitRun4 :: "string \<Rightarrow> string option" where
  "digitRun4 [] = None"
| "digitRun4 (c # cs) =
     (if 4 \<le> length (takeWhile isDigit (c # cs)) then Some (takeWhile isDigit (c # cs))
      else digitRun4 cs)"

definition genericTokens :: "string list" where
  "genericTokens = [''node'', ''mesh'', ''geometry'', ''object'', ''element'', ''shape'', ''geom'']"

text \<open>
  \<open>replace(/^(node|...|geom)[-_\s]*/gi, '')\<close>: the first alternative that starts the
  string, with the separators after it. The expression is anchored, so it applies once.
\<close>

definition stripLeadingToken :: "string \<Rightarrow> string" where
  "stripLeadingToken s =
     (case find (\<lambda>t. take (length t) (toLowerCase s) = t) genericTokens of
        Some t \<Rightarrow> dropWhile isSep (drop (length t) s)
      | None \<Rightarrow> s)"

text \<open>
  \<open>replace(/[-_\s]*(node|...|geom)$/gi, '')\<close>: the token that ends the string, with the
  whole run of separators before it (the leftmost match starts at the head of that run).
\<close>

definition stripTrailingToken :: "string \<Rightarrow> string" where
  "stripTrailingToken s =
     (case find (\<lambda>t. take (length t) (rev (toLowerCase s)) = rev t) genericTokens of
        Some t \<Rightarrow> rev (dropWhile isSep (drop (length t) (rev s)))
      | None \<Rightarrow> s)"

text \<open>\<open>replace(/^(ID|id)[-_\s]*/gi, '')\<close>.\<close>

definition stripLeadingId :: "string \<Rightarrow> string" where
  "stripLeadingId s =
     (if take 2 (toLowerCase s) = ''id'' then dropWhile isSep (drop 2 s) else s)"

definition extractMeaningfulName :: "string \<Rightarrow> string option" where
  "extractMeaningfulName str =
     (if str = [] then None
      else
        (case digitRun4 str of
           Some run \<Rightarrow> Some (''Element_'' @ run)
         | None \<Rightarrow>
             (let cleaned = trim (stripLeadingId (stripTrailingToken (stripLeadingToken str)))
              in if 2 < length cleaned \<and> toLowerCase cleaned \<noteq> ''node''
                    \<and> toLowerCase cleaned \<noteq> ''unnamed''
                 then Some cleaned else None)))"

definition geometryStep :: "node_info \<Rightarrow> string option" where
  "geometryStep n =
     (case n_geometry n of
        None \<Rightarrow> None
      | Some g \<Rightarrow> if g_name g \<noteq> [] then extractMeaningfulName (g_name g) else None)"

fun materialLoop :: "string list \<Rightarrow> string option" where
  "materialLoop [] = None"
| "materialLoop (nm # nms) =
     (case (if nm \<noteq> [] then extractMeaningfulName nm else None) of
        Some r \<Rightarrow> Some r
      | None \<Rightarrow> materialLoop nms)"

definition materialStep :: "node_info \<Rightarrow> string option" where
  "materialStep n =
     (case n_material n of
        NoMaterial \<Rightarrow> None
      | Material nm \<Rightarrow> materialLoop [nm]
      | Materials nms \<Rightarrow> materialLoop nms)"

definition cleanName :: "string \<Rightarrow> string option" where
  "cleanName nm = (if nm \<noteq> [] \<and> nm \<noteq> ''node'' then extractMeaningfulName nm else None)"

text \<open>
  The walk up the parents: at most three levels (\<open>depth\<close> counts them), stopping at a
  node of type \<open>Scene\<close> or at the top.
\<close>

fun parentName :: "node_info list \<Rightarrow> nat \<Rightarrow> string option" where
  "parentName [] depth = None"
| "parentName (current # up) depth =
     (if n_type current \<noteq> ''Scene'' \<and> depth < 3
      then (case cleanName (n_name current) of
              Some r \<Rightarrow> Some r
            | None \<Rightarrow> parentName up (depth + 1))
      else None)"

definition getMeshDisplayName ::
  "metadataIndex option \<Rightarrow> node_info \<Rightarrow> node_info list \<Rightarrow> nat \<Rightarrow> string" where
  "getMeshDisplayName mref n anc index =
     (case getElementMetadata mref n of
        Some m \<Rightarrow> displayName m
      | None \<Rightarrow>
     (case geometryStep n of
        Some r \<Rightarrow> r
      | None \<Rightarrow>
     (case materialStep n of
        Some r \<Rightarrow> r
      | None \<Rightarrow>
     (case cleanName (n_name n) of
        Some r \<Rightarrow> r
      | None \<Rightarrow>
     (case parentName anc 0 of
        Some r \<Rightarrow> r @ ''_'' @ toDec (index + 1)
      | None \<Rightarrow> ''Element_'' @ take 8 (n_uuid n))))))"

section \<open>extractCategory\<close>

definition categoryPatterns :: "(string \<times> string list) list" where
  "categoryPatterns =
     [(''Curtain Panels'', [''curtain panel'', ''pannello'', ''panel'']),
      (''Curtain Wall Mullions'', [''mullion'', ''montante'', ''curtain wall mullion'']),
      (''Structural Columns'', [''column'', ''pilastri'', ''pillar'', ''post'', ''colum'']),
      (''Structural Framing'',
         [''beam'', ''travi'', ''frame'', ''brace'', ''joist'', ''girder'', ''purlin'']),
      (''Structural Foundations'',
         [''foundation'', ''fondazioni'', ''footing'', ''pile'', ''base'', ''plinth'']),
      (''Structural Connections'',
         [''connection'', ''connessioni'', ''connector'', ''plate'', ''bolt'', ''weld'',
          ''gusset'']),
      (''Walls'', [''wall'', ''muro'', ''pareti'', ''partition'']),
      (''Floors'', [''floor'', ''pavimento'', ''slab'', ''deck'', ''pianta'']),
      (''Roofs'', [''roof'', ''tetto'', ''copertura'']),
      (''Ceilings'', [''ceiling'', ''soffitto'', ''soffit'']),
      (''Doors'', [''door'', ''porta'']),
      (''Windows'', [''window'', ''finestra'']),
      (''Stairs'', [''stair'', ''scala'', ''ramp'', ''rampa'', ''step'']),
      (''Railings'', [''railing'', ''ringhiera'', ''handrail'', ''guardrail'', ''balustrade'']),
      (''Specialty Equipment'',
         [''equipment'', ''antenna'', ''device'', ''rru'', ''parabola'', ''apparatus'']),
      (''Generic Models'', [''generic'', ''model'']),
      (''Structural Stiffeners'', [''stiffener'', ''stiffening'', ''brace'']),
      (''Pipes'', [''pipe'', ''tubo'', ''conduit'', ''piping'']),
      (''Ducts'', [''duct'', ''condotto'', ''ductwork'']),
      (''Cable Trays'', [''cable'', ''tray'', ''cavo'', ''conduit'']),
      (''Lighting Fixtures'', [''light'', ''lamp'', ''fixture'', ''luminaire'']),
      (''Electrical Fixtures'', [''electrical'', ''elettrico'', ''outlet'', ''switch'']),
      (''Electrical Equipment'', [''transformer'', ''panel'', ''switchboard'']),
      (''Plumbing Fixtures'', [''plumbing'', ''sink'', ''toilet'', ''faucet'']),
      (''Mechanical Equipment'', [''hvac'', ''mechanical'', ''fan'', ''pump'']),
      (''Site'', [''site'', ''planimetria'', ''topography'', ''terrain'']),
      (''Data Devices'', [''data'', ''device'', ''sensor'']),
      (''Sections'', [''sezione'', ''section''])]"

text \<open>The two nested loops over the table: the first category one of whose patterns occurs.\<close>

definition matchCategory :: "string \<Rightarrow> string option" where
  "matchCategory s =
     map_option fst (find (\<lambda>(c, patterns). list_ex (str_includes s) patterns) categoryPatterns)"

fun parentCategory :: "node_info list \<Rightarrow> nat \<Rightarrow> string option" where
  "parentCategory [] depth = None"
| "parentCategory (current # up) depth =
     (if n_type current \<noteq> ''Scene'' \<and> depth < 3
      then (case (if n_name current \<noteq> [] then matchCategory (toLowerCase (n_name current))
                  else None) of
              Some c \<Rightarrow> Some c
            | None \<Rightarrow> parentCategory up (depth + 1))
      else None)"

definition searchStr :: "node_info \<Rightarrow> string \<Rightarrow> string" where
  "searchStr n dname =
     toLowerCase (dname @ '' '' @ n_name n @ '' '' @ geometryName n @ '' '' @ materialName n)"

definition extractCategory ::
  "metadataIndex option \<Rightarrow> node_info \<Rightarrow> node_info list \<Rightarrow> string \<Rightarrow> string" where
  "extractCategory mref n anc dname =
     (case (case getElementMetadata mref n of
              Some m \<Rightarrow> if category m \<noteq> [] then Some (getCategoryFromOST (category m)) else None
            | None \<Rightarrow> None) of
        Some c \<Rightarrow> c
      | None \<Rightarrow>
          if ud_isText (n_userData n) then ''Text & Annotations''
          else
            (case matchCategory (searchStr n dname) of
               Some c \<Rightarrow> c
             | None \<Rightarrow>
                 (case parentCategory anc 0 of
                    Some c \<Rightarrow> c
                  | None \<Rightarrow> ''Generic Models'')))"

text \<open>The material and geometry patterns that name a group left without a name.\<close>

definition extractCategoryFromNode :: "node_info \<Rightarrow> string option" where
  "extractCategoryFromNode n =
     (let matName = toLowerCase (materialName n); geomName = toLowerCase (geometryName n)
      in case (if materialName n = [] then None
               else if str_includes matName ''column'' then Some ''Structural Columns''
               else if str_includes matName ''beam'' then Some ''Structural Framing''
               else if str_includes matName ''wall'' then Some ''Walls''
               else if str_includes matName ''floor'' \<or> str_includes matName ''slab'' then Some ''Floors''
               else if str_includes matName ''door'' then Some ''Doors''
               else if str_includes matName ''window'' then Some ''Windows''
               else if str_includes matName ''roof'' then Some ''Roofs''
               else if str_includes matName ''foundation'' then Some ''Structural Foundations''
               else if str_includes matName ''stair'' then Some ''Stairs''
               else if str_includes matName ''railing'' then Some ''Railings''
               else if str_includes matName ''antenna'' \<or> str_includes matName ''equipment''
                 then Some ''Specialty Equipment''
               else None) of
           Some c \<Rightarrow> Some c
         | None \<Rightarrow>
             if geometryName n = [] then None
             else if str_includes geomName ''column'' then Some ''Structural Columns''
             else if str_includes geomName ''beam'' then Some ''Structural Framing''
             else None)"

text \<open>\<open>getNodePath\<close>: the names from the node upwards, up to the first empty one.\<close>

definition getNodePath :: "node_info \<Rightarrow> node_info list \<Rightarrow> string" where
  "getNodePath n anc =
     join '' > '' (rev (takeWhile (\<lambda>s. s \<noteq> []) (map n_name (n # anc))))"

section \<open>buildModelTree\<close>

text \<open>
  An entry of a tree node. \<open>it_object\<close> is the mesh the entry refers to, as it is when the
  tree is built; the visibility that later calls change lives in the object map of the
  application state below.
\<close>

record item =
  it_id :: string
  it_name :: string
  it_object :: node_info
  it_type :: string
  it_category :: string
  it_fullPath :: string

record treeNode =
  tn_id :: string
  tn_name :: string
  tn_count :: nat
  tn_items :: "item list"
  tn_expanded :: bool
  tn_type :: string
  tn_depth :: "nat option"

text \<open>The \<open>info\<close> object of the first traversal, with the fields that are read later.\<close>

record groupInfo =
  gi_depth :: nat
  gi_name :: string
  gi_uuid :: string
  gi_isGroup :: bool
  gi_childCount :: nat

definition hierarchyInfo :: "node \<times> node_info list \<Rightarrow> groupInfo" where
  "hierarchyInfo p =
     (case p of (child, anc) \<Rightarrow>
        \<lparr>gi_depth = getNodeDepth anc,
         gi_name = (if n_name (info child) = [] then ''unnamed'' else n_name (info child)),
         gi_uuid = n_uuid (info child),
         gi_isGroup = (n_type (info child) = ''Group'' \<or> n_type (info child) = ''Object3D''),
         gi_childCount = length (children child)\<rparr>)"

definition groupNodes :: "node_info list \<Rightarrow> node \<Rightarrow> groupInfo list" where
  "groupNodes anc0 modelScene =
     filter (\<lambda>i. gi_isGroup i \<and> 0 < gi_childCount i) (map hierarchyInfo (traverse anc0 modelScene))"

text \<open>\<open>findNodeByUuid\<close> keeps the last node of the traversal that has the identity.\<close>

definition findNodeByUuid ::
  "node_info list \<Rightarrow> node \<Rightarrow> string \<Rightarrow> (node \<times> node_info list) option" where
  "findNodeByUuid anc0 rootNode u =
     find (\<lambda>p. n_uuid (info (fst p)) = u) (rev (traverse anc0 rootNode))"

definition mkItem :: "metadataIndex option \<Rightarrow> node \<times> node_info list \<Rightarrow> nat \<Rightarrow> item" where
  "mkItem mref p index =
     (case p of (child, anc) \<Rightarrow>
        (let n = info child; dname = getMeshDisplayName mref n anc index
         in \<lparr>it_id = n_uuid n,
             it_name = dname,
             it_object = n,
             it_type = (if ud_isText (n_userData n) then ''text'' else ''mesh''),
             it_category = extractCategory mref n anc dname,
             it_fullPath = getNodePath n anc\<rparr>))"

text \<open>
  The body shared by the two mesh traversals: a mesh whose identity is not yet in
  \<open>processedMeshes\<close> becomes an entry and its identity is added; \<open>index\<close> counts the entries
  made so far in this traversal.
\<close>

fun collectMeshes ::
  "metadataIndex option \<Rightarrow> (node \<times> node_info list) list \<Rightarrow> string list \<Rightarrow> nat
     \<Rightarrow> item list \<times> string list" where
  "collectMeshes mref [] processed index = ([], processed)"
| "collectMeshes mref (p # ps) processed index =
     (if n_isMesh (info (fst p)) \<and> n_uuid (info (fst p)) \<notin> set processed
      then (case collectMeshes mref ps (processed @ [n_uuid (info (fst p))]) (index + 1) of
              (items, processed') \<Rightarrow> (mkItem mref p index # items, processed'))
      else collectMeshes mref ps processed index)"

definition groupLabel :: "groupInfo \<Rightarrow> item list \<Rightarrow> nat \<Rightarrow> string" where
  "groupLabel gi meshChildren treeLength =
     (if gi_name gi = [] \<or> gi_name gi = ''node'' \<or> gi_name gi = ''unnamed''
      then (case meshChildren of
              firstChild # rest \<Rightarrow>
                (case extractCategoryFromNode (it_object firstChild) of
                   Some c \<Rightarrow> c
                 | None \<Rightarrow> it_category firstChild)
            | [] \<Rightarrow> ''Group_'' @ toDec (treeLength + 1))
      else gi_name gi)"

text \<open>
  One round of the loop over the group nodes. The traversal of the group skips the group
  node itself (\<open>child !== groupNode\<close>), which is the head of its own traversal.
\<close>

definition groupStep ::
  "metadataIndex option \<Rightarrow> (string \<Rightarrow> bool) \<Rightarrow> node_info list \<Rightarrow> node
     \<Rightarrow> treeNode list \<times> string list \<Rightarrow> groupInfo \<Rightarrow> treeNode list \<times> string list" where
  "groupStep mref expandedCategories anc0 modelScene st gi =
     (case st of (tree, processed) \<Rightarrow>
        (case findNodeByUuid anc0 modelScene (gi_uuid gi) of
           None \<Rightarrow> (tree, processed)
         | Some (groupNode, anc) \<Rightarrow>
             (case collectMeshes mref (tl (traverse anc groupNode)) processed 0 of
                (meshChildren, processed') \<Rightarrow>
                  if meshChildren \<noteq> []
                  then (let categoryName = groupLabel gi meshChildren (length tree)
                        in (tree @ [\<lparr>tn_id = gi_uuid gi,
                                     tn_name = categoryName,
                                     tn_count = length meshChildren,
                                     tn_items = meshChildren,
                                     tn_expanded = expandedCategories categoryName,
                                     tn_type = ''group'',
                                     tn_depth = Some (gi_depth gi)\<rparr>],
                            processed'))
                  else (tree, processed'))))"

definition groupPass ::
  "metadataIndex option \<Rightarrow> (string \<Rightarrow> bool) \<Rightarrow> node_info list \<Rightarrow> node
     \<Rightarrow> treeNode list \<times> string list" where
  "groupPass mref expandedCategories anc0 modelScene =
     (if 1 < length (groupNodes anc0 modelScene)
      then foldl (groupStep mref expandedCategories anc0 modelScene) ([], [])
             (groupNodes anc0 modelScene)
      else ([], []))"

text \<open>
  The \<open>categories\<close> object: an entry is appended to the list under its category, and a new
  category is a new key.
\<close>

fun pushCategory :: "(string \<times> item list) list \<Rightarrow> item \<Rightarrow> (string \<times> item list) list" where
  "pushCategory [] meshItem = [(it_category meshItem, [meshItem])]"
| "pushCategory ((k, its) # rest) meshItem =
     (if k = it_category meshItem then (k, its @ [meshItem]) # rest
      else (k, its) # pushCategory rest meshItem)"

text \<open>
  \<open>Object.entries\<close> lists the keys that are array indices (canonical decimal numerals
  below \<open>2^32 - 1\<close>) first, in ascending order, then the other keys in insertion order.
\<close>

definition digitValue :: "char \<Rightarrow> int" where
  "digitValue c = int (length (takeWhile (\<lambda>d. d \<noteq> c) ''0123456789''))"

definition arrayIndex :: "string \<Rightarrow> int option" where
  "arrayIndex k =
     (if k \<noteq> [] \<and> list_all isDigit k \<and> (k = ''0'' \<or> hd k \<noteq> CHR ''0'')
         \<and> foldl (\<lambda>a c. 10 * a + digitValue c) 0 k < 4294967295
      then Some (foldl (\<lambda>a c. 10 * a + digitValue c) 0 k) else None)"

definition objectEntries :: "(string \<times> 'a) list \<Rightarrow> (string \<times> 'a) list" where
  "objectEntries kvs =
     sort_key (\<lambda>kv. case arrayIndex (fst kv) of Some i \<Rightarrow> i | None \<Rightarrow> 0)
       (filter (\<lambda>kv. arrayIndex (fst kv) \<noteq> None) kvs)
     @ filter (\<lambda>kv. arrayIndex (fst kv) = None) kvs"

definition categoryNode :: "(string \<Rightarrow> bool) \<Rightarrow> string \<times> item list \<Rightarrow> treeNode" where
  "categoryNode expandedCategories kv =
     (case kv of (categoryName, items) \<Rightarrow>
        \<lparr>tn_id = categoryName,
         tn_name = categoryName,
         tn_count = length items,
         tn_items = items,
         tn_expanded = expandedCategories categoryName,
         tn_type = ''category'',
         tn_depth = None\<rparr>)"

definition categoryTree :: "(string \<Rightarrow> bool) \<Rightarrow> item list \<Rightarrow> treeNode list" where
  "categoryTree expandedCategories uncategorizedMeshes =
     (if uncategorizedMeshes \<noteq> []
      then map (categoryNode expandedCategories)
             (objectEntries (foldl pushCategory [] uncategorizedMeshes))
      else [])"

record buildResult =
  br_tree :: "treeNode list"
  br_objectsMap :: "string \<rightharpoonup> node_info"
  br_visibilityMap :: "string \<rightharpoonup> bool"

text \<open>
  \<open>buildModelTree\<close>. \<open>mref\<close> is \<open>metadataRef.current\<close>, \<open>expandedCategories\<close> the expansion
  state (\<open>expandedCategories[name] || false\<close>), \<open>anc0\<close> the ancestors of the model's root in
  the viewer's scene. The two maps receive one assignment for each entry made, in the order
  the entries are made.
\<close>

definition buildModelTree ::
  "metadataIndex option \<Rightarrow> (string \<Rightarrow> bool) \<Rightarrow> node_info list \<Rightarrow> node \<Rightarrow> buildResult" where
  "buildModelTree mref expandedCategories anc0 modelScene =
     (case groupPass mref expandedCategories anc0 modelScene of
        (groupTree, processed) \<Rightarrow>
          (case collectMeshes mref (traverse anc0 modelScene) processed 0 of
             (uncategorizedMeshes, processed') \<Rightarrow>
               (let made = concat (map tn_items groupTree) @ uncategorizedMeshes
                in \<lparr>br_tree = groupTree @ categoryTree expandedCategories uncategorizedMeshes,
                    br_objectsMap =
                      foldl (\<lambda>m it. m(it_id it \<mapsto> it_object it)) Map.empty made,
                    br_visibilityMap =
                      foldl (\<lambda>m it. m(it_id it \<mapsto> n_visible (it_object it))) Map.empty made\<rparr>)))"

section \<open>The mesh pass of loadModel\<close>

datatype error = TypeError

text \<open>
  The triangle count of the source, \<open>index.count / 3\<close> or \<open>(position?.count || 0) / 3\<close>, is a
  floating-point quotient of an integer count; its comparison with 100 is exact, so the
  quotient is taken in the reals.
\<close>

definition triangles :: "geometry \<Rightarrow> real" where
  "triangles g =
     (case g_indexCount g of
        Some c \<Rightarrow> real c / 3
      | None \<Rightarrow> real (case g_positionCount g of Some c \<Rightarrow> c | None \<Rightarrow> 0) / 3)"

text \<open>
  What the traversal of \<open>loadModel\<close> does to one node, as far as the engine reads it: a
  mesh below the threshold gets the flag \<open>userData.isText\<close>, and every mesh is made
  visible. Reading \<open>index\<close> of a mesh without geometry raises.
\<close>

definition prepareMesh :: "node_info \<Rightarrow> error + node_info" where
  "prepareMesh child =
     (if n_isMesh child
      then (case n_geometry child of
              None \<Rightarrow> Inl TypeError
            | Some g \<Rightarrow>
                Inr (child\<lparr>n_userData :=
                             (if triangles g < 100 then (n_userData child)\<lparr>ud_isText := True\<rparr>
                              else n_userData child),
                           n_visible := True\<rparr>))
      else Inr child)"

section \<open>Visibility toggles and search\<close>

text \<open>
  The state the toggles work on: the tree, the object map \<open>objectsMapRef.current\<close> (each
  object is stored under its own identity, so the map is the store of the objects'
  \<open>visible\<close> flags) and the visibility map \<open>objectVisibility\<close>.

  The object map is a plain object. A read \<open>objectsMapRef.current[key]\<close> under a key that
  the map does not hold itself finds the member of \<open>Object.prototype\<close> of that name, when
  there is one: a function, or \<open>Object.prototype\<close> itself under the key \<open>__proto__\<close>.
  \<open>builtinVisible\<close> holds the \<open>visible\<close> property that such a member has been given, by
  the member's name; a member that has none of its own inherits the one of
  \<open>Object.prototype\<close>. Once \<open>Object.prototype\<close> has been given a \<open>visible\<close> property, a
  read of the object map under the key \<open>visible\<close> finds that boolean.
\<close>

definition objectPrototypeMembers :: "string list" where
  "objectPrototypeMembers =
     [''constructor'', ''__defineGetter__'', ''__defineSetter__'', ''hasOwnProperty'',
      ''__lookupGetter__'', ''__lookupSetter__'', ''isPrototypeOf'', ''propertyIsEnumerable'',
      ''toString'', ''valueOf'', ''__proto__'', ''toLocaleString'']"

text \<open>
  The names under which a read can find something that \<open>Object.prototype\<close> provides: its
  members, and \<open>visible\<close>.
\<close>

definition prototypeNames :: "string list" where
  "prototypeNames = objectPrototypeMembers @ [''visible'']"

record appState =
  modelTree :: "treeNode list"
  objectsMap :: "string \<rightharpoonup> node_info"
  objectVisibility :: "string \<rightharpoonup> bool"
  builtinVisible :: "string \<rightharpoonup> bool"

text \<open>
  What a read of the object map yields when it is truthy: a stored object, a member of
  \<open>Object.prototype\<close>, or the boolean \<open>true\<close> that \<open>Object.prototype\<close> holds as \<open>visible\<close>.
\<close>

datatype objectRef = MeshObject node_info | BuiltinObject string | InheritedTrue

text \<open>\<open>objectsMapRef.current[key]\<close>, \<open>None\<close> when the read yields \<open>undefined\<close> or \<open>false\<close>.\<close>

definition readObject :: "appState \<Rightarrow> string \<Rightarrow> objectRef option" where
  "readObject st key =
     (case objectsMap st key of
        Some obj \<Rightarrow> Some (MeshObject obj)
      | None \<Rightarrow>
          if key \<in> set objectPrototypeMembers then Some (BuiltinObject key)
          else if key = ''visible'' \<and> builtinVisible st ''__proto__'' = Some True
          then Some InheritedTrue
          else None)"

text \<open>
  \<open>object.visible\<close>, which is a boolean or \<open>undefined\<close>: whether it is \<open>true\<close>. The boolean
  \<open>true\<close> has the \<open>visible\<close> of \<open>Object.prototype\<close>.
\<close>

definition getVisible :: "appState \<Rightarrow> objectRef \<Rightarrow> bool" where
  "getVisible st object =
     (case object of
        MeshObject obj \<Rightarrow> n_visible obj
      | BuiltinObject name \<Rightarrow>
          (case builtinVisible st name of
             Some v \<Rightarrow> v
           | None \<Rightarrow> (case builtinVisible st ''__proto__'' of Some v \<Rightarrow> v | None \<Rightarrow> False))
      | InheritedTrue \<Rightarrow>
          (case builtinVisible st ''__proto__'' of Some v \<Rightarrow> v | None \<Rightarrow> False))"

text \<open>
  \<open>object.visible = v\<close> for the object read under \<open>key\<close>. The module is strict code, in
  which the assignment to a property of a boolean raises. A call that raises leaves the
  state as it is at that point.
\<close>

type_synonym toggleResult = "(error \<times> appState) + appState"

definition setVisible :: "string \<Rightarrow> objectRef \<Rightarrow> bool \<Rightarrow> appState \<Rightarrow> toggleResult" where
  "setVisible key object v st =
     (case object of
        MeshObject obj \<Rightarrow> Inr (st\<lparr>objectsMap := (objectsMap st)(key \<mapsto> obj\<lparr>n_visible := v\<rparr>)\<rparr>)
      | BuiltinObject name \<Rightarrow> Inr (st\<lparr>builtinVisible := (builtinVisible st)(name \<mapsto> v)\<rparr>)
      | InheritedTrue \<Rightarrow> Inl (TypeError, st))"

definition toggleObjectVisibility :: "string \<Rightarrow> appState \<Rightarrow> toggleResult" where
  "toggleObjectVisibility objectId st =
     (case readObject st objectId of
        None \<Rightarrow> Inr st
      | Some object \<Rightarrow>
          (let newVisibility = (\<not> getVisible st object)
           in case setVisible objectId object newVisibility st of
                Inl r \<Rightarrow> Inl r
              | Inr st1 \<Rightarrow>
                  Inr (st1\<lparr>objectVisibility := (objectVisibility st1)(objectId \<mapsto> newVisibility)\<rparr>)))"

definition allVisible :: "appState \<Rightarrow> treeNode \<Rightarrow> bool" where
  "allVisible st cat =
     list_all (\<lambda>it. case readObject st (it_id it) of None \<Rightarrow> False | Some obj \<Rightarrow> getVisible st obj)
       (tn_items cat)"

definition setItemVisibility :: "bool \<Rightarrow> appState \<Rightarrow> item \<Rightarrow> toggleResult" where
  "setItemVisibility newVisibility st it =
     (case readObject st (it_id it) of
        None \<Rightarrow> Inr st
      | Some obj \<Rightarrow>
          (case setVisible (it_id it) obj newVisibility st of
             Inl r \<Rightarrow> Inl r
           | Inr st1 \<Rightarrow>
               Inr (st1\<lparr>objectVisibility := (objectVisibility st1)(it_id it \<mapsto> newVisibility)\<rparr>)))"

text \<open>\<open>category.items.forEach\<close>, which the first raise ends.\<close>

fun forEachItem :: "bool \<Rightarrow> item list \<Rightarrow> appState \<Rightarrow> toggleResult" where
  "forEachItem newVisibility [] st = Inr st"
| "forEachItem newVisibility (it # its) st =
     (case setItemVisibility newVisibility st it of
        Inl r \<Rightarrow> Inl r
      | Inr st1 \<Rightarrow> forEachItem newVisibility its st1)"

definition toggleCategoryVisibility :: "string \<Rightarrow> appState \<Rightarrow> toggleResult" where
  "toggleCategoryVisibility categoryId st =
     (case find (\<lambda>cat. tn_id cat = categoryId) (modelTree st) of
        None \<Rightarrow> Inr st
      | Some cat \<Rightarrow> forEachItem (\<not> allVisible st cat) (tn_items cat) st)"

definition filterCategory :: "string \<Rightarrow> treeNode \<Rightarrow> treeNode" where
  "filterCategory searchLower cat =
     (let filteredItems =
            filter (\<lambda>it. str_includes (toLowerCase (it_name it)) searchLower
                       \<or> str_includes (toLowerCase (tn_name cat)) searchLower) (tn_items cat)
      in cat\<lparr>tn_items := filteredItems, tn_count := length filteredItems\<rparr>)"

definition getFilteredModelTree :: "string \<Rightarrow> treeNode list \<Rightarrow> treeNode list" where
  "getFilteredModelTree modelBrowserSearch tree =
     (if trim modelBrowserSearch = [] then tree
      else filter (\<lambda>cat. 0 < length (tn_items cat))
             (map (filterCategory (toLowerCase modelBrowserSearch)) tree))"

section \<open>parseJsonMetadata\<close>

text \<open>
  The parsed JSON document. Numbers are the integers; an object is the list of its
  members, read by key. A property read yields \<open>None\<close> for \<open>undefined\<close>; the parser reads
  only keys that no array, string, number or boolean has.
\<close>

datatype json =
    JNull
  | JBool bool
  | JNum int
  | JStr string
  | JArr "json list"
  | JObj "(string \<times> json) list"

fun truthy :: "json \<Rightarrow> bool" where
  "truthy JNull = False"
| "truthy (JBool b) = b"
| "truthy (JNum i) = (i \<noteq> 0)"
| "truthy (JStr s) = (s \<noteq> [])"
| "truthy (JArr xs) = True"
| "truthy (JObj kvs) = True"

definition getProp :: "json \<Rightarrow> string \<Rightarrow> json option" where
  "getProp v k = (case v of JObj kvs \<Rightarrow> map_of kvs k | _ \<Rightarrow> None)"

text \<open>\<open>a || b || ... || d\<close>: the first truthy operand, else the last one.\<close>

fun firstTruthy :: "json option list \<Rightarrow> json \<Rightarrow> json" where
  "firstTruthy [] d = d"
| "firstTruthy (None # vs) d = firstTruthy vs d"
| "firstTruthy (Some v # vs) d = (if truthy v then v else firstTruthy vs d)"

text \<open>
  The string form of a value (\<open>toString()\<close> and template interpolation). An object that
  has a member named \<open>toString\<close> has no callable \<open>toString\<close>, and the conversion raises.
\<close>

fun jsToString :: "json \<Rightarrow> error + string"
  and jsJoin :: "json list \<Rightarrow> error + string" where
  "jsToString JNull = Inr ''null''"
| "jsToString (JBool b) = Inr (if b then ''true'' else ''false'')"
| "jsToString (JNum i) = Inr (if i < 0 then ''-'' @ toDec (nat (- i)) else toDec (nat i))"
| "jsToString (JStr s) = Inr s"
| "jsToString (JArr xs) = jsJoin xs"
| "jsToString (JObj kvs) =
     (case map_of kvs ''toString'' of Some v \<Rightarrow> Inl TypeError | None \<Rightarrow> Inr ''[object Object]'')"
| "jsJoin [] = Inr []"
| "jsJoin (x # xs) =
     (case (if x = JNull then Inr [] else jsToString x) of
        Inl e \<Rightarrow> Inl e
      | Inr s \<Rightarrow>
          (if xs = [] then Inr s
           else (case jsJoin xs of Inl e \<Rightarrow> Inl e | Inr r \<Rightarrow> Inr (s @ '','' @ r))))"

record rawMetadata =
  r_elementId :: json
  r_externalId :: json
  r_familyName :: json
  r_typeName :: json
  r_category :: json
  r_displayName :: json

type_synonym rawIndex = "(string \<times> rawMetadata) list"

text \<open>\<open>Map.set\<close>: a known key keeps its place, a new key goes last.\<close>

fun mapSet :: "string \<Rightarrow> 'v \<Rightarrow> (string \<times> 'v) list \<Rightarrow> (string \<times> 'v) list" where
  "mapSet k v [] = [(k, v)]"
| "mapSet k v ((k', v') # rest) =
     (if k' = k then (k, v) # rest else (k', v') # mapSet k v rest)"

text \<open>
  The loop over \<open>obj.properties\<close>: the element after the first \<open>'Invalid group'\<close> that has
  an element after it.
\<close>

fun invalidGroupSection :: "json list \<Rightarrow> json option" where
  "invalidGroupSection [] = None"
| "invalidGroupSection [x] = None"
| "invalidGroupSection (x # y # rest) =
     (if x = JStr ''Invalid group'' then Some y else invalidGroupSection (y # rest))"

text \<open>
  The labelled fields \<open>(family, type, category, familyAndType)\<close>. Reading a member of
  \<open>null\<close> raises.
\<close>

definition sectionFields :: "json \<Rightarrow> error + json \<times> json \<times> json \<times> json" where
  "sectionFields obj =
     (case getProp obj ''properties'' of
        Some (JArr props) \<Rightarrow>
          (case invalidGroupSection props of
             None \<Rightarrow> Inr (JStr [], JStr [], JStr [], JStr [])
           | Some md \<Rightarrow>
               if md = JNull then Inl TypeError
               else Inr (firstTruthy [getProp md ''Family'', getProp md ''Family Name''] (JStr []),
                         firstTruthy [getProp md ''Type'', getProp md ''Type Name''] (JStr []),
                         firstTruthy [getProp md ''Category''] (JStr []),
                         firstTruthy [getProp md ''Family and Type''] (JStr [])))
      | _ \<Rightarrow> Inr (JStr [], JStr [], JStr [], JStr []))"

text \<open>The element a node of the document describes, entered into the map.\<close>

definition addElement :: "json \<Rightarrow> rawIndex \<Rightarrow> error + rawIndex" where
  "addElement obj elementMap =
     (case (getProp obj ''object'', getProp obj ''externalId'') of
        (Some eid, Some ext) \<Rightarrow>
          if truthy eid \<and> truthy ext
          then (case sectionFields obj of
                  Inl e \<Rightarrow> Inl e
                | Inr (family, type, cat, familyAndType) \<Rightarrow>
                    (case (if truthy familyAndType then Inr familyAndType
                           else if truthy family then Inr family
                           else if truthy type then Inr type
                           else (case jsToString eid of
                                   Inl e \<Rightarrow> Inl e
                                 | Inr s \<Rightarrow> Inr (JStr (''Element_'' @ s)))) of
                       Inl e \<Rightarrow> Inl e
                     | Inr dname \<Rightarrow>
                         (case jsToString eid of
                            Inl e \<Rightarrow> Inl e
                          | Inr key \<Rightarrow>
                              Inr (mapSet key
                                     \<lparr>r_elementId = eid, r_externalId = ext,
                                      r_familyName = family, r_typeName = type,
                                      r_category = cat, r_displayName = dname\<rparr>
                                     elementMap))))
          else Inr elementMap
      | _ \<Rightarrow> Inr elementMap)"

text \<open>Sequencing of steps that may raise: the first error ends the run.\<close>

definition bindE :: "error + 'a \<Rightarrow> ('a \<Rightarrow> error + 'b) \<Rightarrow> error + 'b" where
  "bindE r f = (case r of Inl e \<Rightarrow> Inl e | Inr v \<Rightarrow> f v)"

function traverseJson :: "json \<Rightarrow> rawIndex \<Rightarrow> error + rawIndex"
  and traverseAll :: "json list \<Rightarrow> rawIndex \<Rightarrow> error + rawIndex" where
  "traverseJson obj elementMap =
     (if \<not> truthy obj then Inr elementMap
      else
        bindE (addElement obj elementMap) (\<lambda>m1.
        bindE (case getProp obj ''objects'' of
                 Some (JArr xs) \<Rightarrow> traverseAll xs m1
               | _ \<Rightarrow> Inr m1) (\<lambda>m2.
        (case obj of JArr ys \<Rightarrow> traverseAll ys m2 | _ \<Rightarrow> Inr m2))))"
| "traverseAll [] elementMap = Inr elementMap"
| "traverseAll (x # xs) elementMap = bindE (traverseJson x elementMap) (traverseAll xs)"
  by pat_completeness auto
termination
proof -
  have member_size: "size v < Suc (size_list (size_prod (\<lambda>_. 0) size) kvs)"
    if "map_of kvs k = Some v" for kvs :: "(string \<times> json) list" and k v
    using that by (induction kvs) (auto split: if_splits)
  show ?thesis
    by (relation "measure (\<lambda>a. case a of Inl (j, m) \<Rightarrow> size j | Inr (js, m) \<Rightarrow> size_list size js)")
       (auto simp: getProp_def split: json.splits dest: member_size)
qed

definition parseJsonMetadata :: "json \<Rightarrow> error + rawIndex" where
  "parseJsonMetadata jsonData =
     (case getProp jsonData ''data'' of
        Some d \<Rightarrow>
          if truthy d then traverseJson d []
          else (case getProp jsonData ''objects'' of
                  Some os \<Rightarrow> if truthy os then traverseJson jsonData [] else Inr []
                | None \<Rightarrow> Inr [])
      | None \<Rightarrow>
          (case getProp jsonData ''objects'' of
             Some os \<Rightarrow> if truthy os then traverseJson jsonData [] else Inr []
           | None \<Rightarrow> Inr []))"

section \<open>The matcher on the parsed records\<close>

text \<open>
  \<open>parseJsonMetadata\<close> stores the values of the document as it finds them: the
  \<open>externalId\<close> of a record is whatever truthy value the document holds, a number as well
  as a string. The functions of this section are \<open>getElementMetadata\<close>,
  \<open>getMeshDisplayName\<close>, \<open>getCategoryFromOST\<close> and \<open>extractCategory\<close> on the index that
  the parser returns, and they raise where the source raises. \<open>rawOf\<close> embeds a record of
  string fields into the parsed records; on the indexes it reaches, the functions of this
  section are the functions of the sections above.
\<close>

definition rawOf :: "metadata \<Rightarrow> rawMetadata" where
  "rawOf m =
     \<lparr>r_elementId = JStr (elementId m), r_externalId = JStr (externalId m),
      r_familyName = JStr (familyName m), r_typeName = JStr (typeName m),
      r_category = JStr (category m), r_displayName = JStr (displayName m)\<rparr>"

text \<open>
  \<open>metadata.externalId && metadata.externalId.toLowerCase().includes(guid)\<close>: a falsy value
  ends the test. Of the truthy values only a string has a \<open>toLowerCase\<close> to call; the call
  on a number, a boolean, an array or an object raises.
\<close>

definition guidHitRaw :: "string \<Rightarrow> rawMetadata \<Rightarrow> error + bool" where
  "guidHitRaw guid m =
     (if truthy (r_externalId m)
      then (case r_externalId m of
              JStr s \<Rightarrow> Inr (str_includes (toLowerCase s) guid)
            | _ \<Rightarrow> Inl TypeError)
      else Inr False)"

text \<open>The loop over the records of the index, which ends at the first hit or raise.\<close>

fun findGuidHit :: "string \<Rightarrow> rawMetadata list \<Rightarrow> error + rawMetadata option" where
  "findGuidHit guid [] = Inr None"
| "findGuidHit guid (m # ms) =
     (case guidHitRaw guid m of
        Inl e \<Rightarrow> Inl e
      | Inr hit \<Rightarrow> if hit then Inr (Some m) else findGuidHit guid ms)"

fun guidLoopRaw :: "rawIndex \<Rightarrow> string list \<Rightarrow> error + rawMetadata option" where
  "guidLoopRaw idx [] = Inr None"
| "guidLoopRaw idx (str # strs) =
     (case guidMatch str of
        None \<Rightarrow> guidLoopRaw idx strs
      | Some guid \<Rightarrow>
          (case findGuidHit guid (map snd idx) of
             Inl e \<Rightarrow> Inl e
           | Inr (Some m) \<Rightarrow> Inr (Some m)
           | Inr None \<Rightarrow> guidLoopRaw idx strs))"

definition getElementMetadataRaw ::
  "rawIndex option \<Rightarrow> node_info \<Rightarrow> error + rawMetadata option" where
  "getElementMetadataRaw mref n =
     (case mref of
        None \<Rightarrow> Inr None
      | Some idx \<Rightarrow>
          if idx = [] then Inr None
          else
            (case guidLoopRaw idx (searchStrings n) of
               Inl e \<Rightarrow> Inl e
             | Inr (Some m) \<Rightarrow> Inr (Some m)
             | Inr None \<Rightarrow>
                 (case nodeElementId n of
                    None \<Rightarrow> Inr None
                  | Some eid \<Rightarrow> Inr (map_of idx eid))))"

text \<open>
  \<open>getMeshDisplayName\<close>: the \<open>displayName\<close> of the record as it is stored; without a record
  the name that the steps after the metadata lookup derive, which are the steps of
  \<open>getMeshDisplayName\<close> without an index.
\<close>

definition getMeshDisplayNameRaw ::
  "rawIndex option \<Rightarrow> node_info \<Rightarrow> node_info list \<Rightarrow> nat \<Rightarrow> error + json" where
  "getMeshDisplayNameRaw mref n anc index =
     (case getElementMetadataRaw mref n of
        Inl e \<Rightarrow> Inl e
      | Inr (Some m) \<Rightarrow> Inr (r_displayName m)
      | Inr None \<Rightarrow> Inr (JStr (getMeshDisplayName None n anc index)))"

text \<open>
  A value of the running program that is not a value of the document: the member of
  \<open>Object.prototype\<close> of the given name, which a read of a plain object under that name
  yields.
\<close>

datatype jsValue = Json json | BuiltinMember string

text \<open>
  \<open>categoryMap[ostCategory] || ostCategory\<close>: the key of the read is the string form of
  the value. The table holds the twelve codes; under another key the read finds the
  member of \<open>Object.prototype\<close> of that name, if there is one, else nothing.
  \<open>Object.prototype\<close> is taken with the members it has when the page is loaded.
\<close>

definition getCategoryFromOSTRaw :: "json \<Rightarrow> error + jsValue" where
  "getCategoryFromOSTRaw ostCategory =
     (case jsToString ostCategory of
        Inl e \<Rightarrow> Inl e
      | Inr key \<Rightarrow>
          (case map_of categoryMap key of
             Some label \<Rightarrow> Inr (Json (JStr label))
           | None \<Rightarrow>
               if key \<in> set objectPrototypeMembers then Inr (BuiltinMember key)
               else Inr (Json ostCategory)))"

text \<open>
  \<open>extractCategory\<close>: the category of the record when it is truthy; else the steps after
  the metadata lookup, which are the steps of \<open>extractCategory\<close> without an index. The
  display name it is given enters the search string by its string form, which is taken
  after the test of the text flag.
\<close>

definition extractCategoryRaw ::
  "rawIndex option \<Rightarrow> node_info \<Rightarrow> node_info list \<Rightarrow> json \<Rightarrow> error + jsValue" where
  "extractCategoryRaw mref n anc dname =
     (case getElementMetadataRaw mref n of
        Inl e \<Rightarrow> Inl e
      | Inr found \<Rightarrow>
          (case (case found of
                   Some m \<Rightarrow> if truthy (r_category m) then Some (r_category m) else None
                 | None \<Rightarrow> None) of
             Some c \<Rightarrow> getCategoryFromOSTRaw c
           | None \<Rightarrow>
               if ud_isText (n_userData n) then Inr (Json (JStr ''Text & Annotations''))
               else
                 (case jsToString dname of
                    Inl e \<Rightarrow> Inl e
                  | Inr s \<Rightarrow> Inr (Json (JStr (extractCategory None n anc s))))))"

section \<open>Notions of the specification\<close>

text \<open>
  Case-insensitive containment in the specification's words: the lower-cased query is a
  contiguous part of the lower-cased text.
\<close>

definition spec_contains :: "string \<Rightarrow> string \<Rightarrow> bool" where
  "spec_contains s q = sublist (toLowerCase q) (toLowerCase s)"

text \<open>The categories the classifier can name without metadata.\<close>

definition categoryLabels :: "string list" where
  "categoryLabels = ''Text & Annotations'' # map fst categoryPatterns"

text \<open>The specification's "contains a run of at least 4 digits".\<close>

definition spec_hasDigitRun :: "string \<Rightarrow> bool" where
  "spec_hasDigitRun s = (\<exists>a d b. s = a @ d @ b \<and> 4 \<le> length d \<and> list_all isDigit d)"



text \<open>
  The identities of the renderable nodes a traversal visits, in its order, and the
  identities of the entries of a tree, group by group.
\<close>

definition meshIds :: "(node \<times> node_info list) list \<Rightarrow> string list" where
  "meshIds ps = map (\<lambda>p. n_uuid (info (fst p))) (filter (\<lambda>p. n_isMesh (info (fst p))) ps)"

definition treeIds :: "treeNode list \<Rightarrow> string list" where
  "treeIds tree = map it_id (concat (map tn_items tree))"





section \<open>Example inputs\<close>

definition exUserData :: userData where
  "exUserData = \<lparr>ud_revitId = [], ud_guid = [], ud_elementId = [], ud_isText = False\<rparr>"

definition exMesh :: "string \<Rightarrow> string \<Rightarrow> bool \<Rightarrow> node_info" where
  "exMesh nm u vis =
     \<lparr>n_name = nm, n_type = ''Mesh'', n_isMesh = True, n_uuid = u, n_id = 7,
      n_geometry = None, n_material = NoMaterial, n_userData = exUserData, n_visible = vis\<rparr>"

definition exItem :: "string \<Rightarrow> string \<Rightarrow> bool \<Rightarrow> item" where
  "exItem nm u vis =
     \<lparr>it_id = u, it_name = nm, it_object = exMesh nm u vis, it_type = ''mesh'',
      it_category = ''Walls'', it_fullPath = nm\<rparr>"

text \<open>A group of three members, two visible and one hidden, and a state that holds it.\<close>

definition exGroup :: treeNode where
  "exGroup =
     \<lparr>tn_id = ''Walls'', tn_name = ''Walls'', tn_count = 3,
      tn_items = [exItem ''Wall A'' ''u1'' True, exItem ''Wall B'' ''u2'' True,
                  exItem ''Wall C'' ''u3'' False],
      tn_expanded = False, tn_type = ''category'', tn_depth = None\<rparr>"

definition exState :: appState where
  "exState =
     \<lparr>modelTree = [exGroup],
      objectsMap = [''u1'' \<mapsto> exMesh ''Wall A'' ''u1'' True, ''u2'' \<mapsto> exMesh ''Wall B'' ''u2'' True,
                    ''u3'' \<mapsto> exMesh ''Wall C'' ''u3'' False],
      objectVisibility = [''u1'' \<mapsto> True, ''u2'' \<mapsto> True, ''u3'' \<mapsto> False],
      builtinVisible = Map.empty\<rparr>"

text \<open>The same state with all three members visible.\<close>

definition exShownState :: appState where
  "exShownState =
     \<lparr>modelTree = [exGroup],
      objectsMap = [''u1'' \<mapsto> exMesh ''Wall A'' ''u1'' True, ''u2'' \<mapsto> exMesh ''Wall B'' ''u2'' True,
                    ''u3'' \<mapsto> exMesh ''Wall C'' ''u3'' True],
      objectVisibility = [''u1'' \<mapsto> True, ''u2'' \<mapsto> True, ''u3'' \<mapsto> True],
      builtinVisible = Map.empty\<rparr>"

definition exRoofGroup :: treeNode where
  "exRoofGroup =
     \<lparr>tn_id = ''Roofs'', tn_name = ''Roofs'', tn_count = 1,
      tn_items = [exItem ''Roof'' ''r1'' True],
      tn_expanded = False, tn_type = ''category'', tn_depth = None\<rparr>"

text \<open>A mesh of 90 vertices without an index buffer: 30 triangles.\<close>

definition exTextGeometry :: geometry where
  "exTextGeometry = \<lparr>g_name = [], g_indexCount = None, g_positionCount = Some 90\<rparr>"

definition exTextMesh :: node_info where
  "exTextMesh = (exMesh ''Label'' ''t1'' False)\<lparr>n_geometry := Some exTextGeometry\<rparr>"

text \<open>
  A metadata document whose only element has \<open>null\<close> where the labelled section is
  expected: \<open>{"data": {"object": 1, "externalId": "a", "properties": ["Invalid group", null]}}\<close>.
\<close>

definition exBadMetadata :: json where
  "exBadMetadata =
     JObj [(''data'',
            JObj [(''object'', JNum 1), (''externalId'', JStr ''a''),
                  (''properties'', JArr [JStr ''Invalid group'', JNull])])]"

text \<open>
  A metadata document whose only element has a number as its external identifier,
  \<open>{"data": {"object": 1, "externalId": 12345}}\<close>, the index that the parser makes of it,
  and a mesh with a GUID in its name.
\<close>

definition exNumericMetadata :: json where
  "exNumericMetadata =
     JObj [(''data'', JObj [(''object'', JNum 1), (''externalId'', JNum 12345)])]"

definition exNumericIndex :: rawIndex where
  "exNumericIndex =
     [(''1'', \<lparr>r_elementId = JNum 1, r_externalId = JNum 12345, r_familyName = JStr [],
               r_typeName = JStr [], r_category = JStr [], r_displayName = JStr ''Element_1''\<rparr>)]"

definition exGuidNamedMesh :: node_info where
  "exGuidNamedMesh = exMesh ''Wall_aaaaaaaa-0000-0000-0000-000000000001'' ''m-30'' True"

text \<open>A mesh without any name, and the mesh of the numeric fall-back example.\<close>

definition exBareMesh :: node_info where
  "exBareMesh = exMesh [] ''abcdef0123456789'' True"

definition exWallMesh :: node_info where
  "exWallMesh = exMesh ''Wall-Element_4821-mesh'' ''m-4821'' True"









text \<open>
  Two scenes. In the first a root of type \<open>Scene\<close> holds a named group of two walls, an
  unnamed group of one column and a door outside every group. In the second the root
  group holds a wall and a group whose only child is an empty group.
\<close>

definition exNode :: "string \<Rightarrow> string \<Rightarrow> string \<Rightarrow> node_info" where
  "exNode nm ty u = (exMesh nm u True)\<lparr>n_type := ty, n_isMesh := False\<rparr>"

definition exScene :: node where
  "exScene =
     Node (exNode [] ''Scene'' ''s0'')
       [Node (exNode ''Walls'' ''Group'' ''g1'')
          [Node (exMesh ''Wall A'' ''w1'' True) [], Node (exMesh ''Wall B'' ''w2'' True) []],
        Node (exNode [] ''Group'' ''g2'') [Node (exMesh ''Column 1'' ''c1'' True) []],
        Node (exMesh ''Door 7'' ''d1'' True) []]"



section \<open>Properties\<close>

subsection \<open>Strings\<close>

lemma take_length_eq_prefix: "(take (length sub) s = sub) = prefix sub s"
  by (metis append_eq_conv_conj prefix_def)

lemma str_includes_sublist: "str_includes s sub = sublist sub s"
  by (induction s) (simp_all add: sublist_Cons_right take_length_eq_prefix del: take_Suc_Cons)

subsection \<open>Search\<close>

lemma filterCategory_idem:
  "filterCategory ql (filterCategory ql c) = filterCategory ql c"
  by (simp add: filterCategory_def Let_def)

lemma map_filterCategory_fixed:
  "map (filterCategory ql) (filter P (map (filterCategory ql) tree))
     = filter P (map (filterCategory ql) tree)"
  by (induction tree) (simp_all add: filterCategory_idem)

lemma getFilteredModelTree_idem:
  "getFilteredModelTree q (getFilteredModelTree q tree) = getFilteredModelTree q tree"
  by (simp add: getFilteredModelTree_def map_filterCategory_fixed)

text \<open>
  Claim C9, as amended. Searching twice with one query gives what searching once gives. A
  query that is blank (empty after \<open>trim\<close>) returns the tree as it is. For any other query
  every group keeps exactly the entries whose name, or whose group's name, contains the
  query without regard to case, its count is the number of entries kept, and the groups
  left without an entry are omitted. The search is a function of the query and the
  tree: the tree it was given is not changed.
\<close>

theorem search_semantics:
  "getFilteredModelTree q (getFilteredModelTree q tree) = getFilteredModelTree q tree
   \<and> (trim q = [] \<longrightarrow> getFilteredModelTree q tree = tree)
   \<and> (trim q \<noteq> [] \<longrightarrow>
        getFilteredModelTree q tree =
          filter (\<lambda>c. tn_items c \<noteq> [])
            (map (\<lambda>c. c\<lparr>tn_items :=
                          filter (\<lambda>it. spec_contains (it_name it) q \<or> spec_contains (tn_name c) q)
                            (tn_items c),
                        tn_count :=
                          length (filter (\<lambda>it. spec_contains (it_name it) q
                                             \<or> spec_contains (tn_name c) q) (tn_items c))\<rparr>)
               tree))"
proof -
  have f: "filterCategory (toLowerCase q) =
             (\<lambda>c. c\<lparr>tn_items :=
                          filter (\<lambda>it. spec_contains (it_name it) q \<or> spec_contains (tn_name c) q)
                            (tn_items c),
                        tn_count :=
                          length (filter (\<lambda>it. spec_contains (it_name it) q
                                             \<or> spec_contains (tn_name c) q) (tn_items c))\<rparr>)"
    by (rule ext) (simp add: filterCategory_def Let_def spec_contains_def str_includes_sublist)
  show ?thesis
    by (simp add: getFilteredModelTree_idem) (simp add: getFilteredModelTree_def f)
qed

theorem search_semantics_witness:
  "trim ''wall'' \<noteq> []
   \<and> getFilteredModelTree ''wall'' [exGroup, exRoofGroup] = [exGroup]
   \<and> getFilteredModelTree ''wall'' [exGroup] = [exGroup]"
proof -
  have c: "spec_contains s q = str_includes (toLowerCase s) (toLowerCase q)" for s q
    by (simp add: spec_contains_def str_includes_sublist)
  have t: "trim ''wall'' \<noteq> []"
    by (simp add: trim_def isSpace_def)
  have w: "spec_contains ''Walls'' ''wall''"
    by (simp add: c toLowerCase_def toLowerChar_def)
  have r: "\<not> spec_contains ''Roofs'' ''wall''" "\<not> spec_contains ''Roof'' ''wall''"
    by (simp_all add: c toLowerCase_def toLowerChar_def)
  have g: "tn_name exGroup = ''Walls''" "tn_name exRoofGroup = ''Roofs''"
    "tn_items exRoofGroup = [exItem ''Roof'' ''r1'' True]" "tn_items exGroup \<noteq> []"
    "tn_count exGroup = length (tn_items exGroup)"
    by (simp_all add: exGroup_def exRoofGroup_def)
  have n: "it_name (exItem ''Roof'' ''r1'' True) = ''Roof''"
    by (simp add: exItem_def)
  show ?thesis
    using search_semantics [of "''wall''" "[exGroup, exRoofGroup]"]
      search_semantics [of "''wall''" "[exGroup]"] t
    by (simp add: w r g n)
qed

text \<open>
  Claim C9 as stated fails for a blank query: for the query of one space the entry
  \<open>Roof\<close> of the group \<open>Roofs\<close> is kept, though neither name contains a space.
\<close>

theorem search_blank_counterexample:
  "tn_items exRoofGroup = [exItem ''Roof'' ''r1'' True]
   \<and> getFilteredModelTree '' '' [exRoofGroup] = [exRoofGroup]
   \<and> \<not> spec_contains (it_name (exItem ''Roof'' ''r1'' True)) '' ''
   \<and> \<not> spec_contains (tn_name exRoofGroup) '' ''"
proof -
  have c: "spec_contains s q = str_includes (toLowerCase s) (toLowerCase q)" for s q
    by (simp add: spec_contains_def str_includes_sublist)
  have t: "trim '' '' = []"
    by (simp add: trim_def isSpace_def)
  have r: "\<not> spec_contains ''Roofs'' '' ''" "\<not> spec_contains ''Roof'' '' ''"
    by (simp_all add: c toLowerCase_def toLowerChar_def)
  have g: "tn_name exRoofGroup = ''Roofs''" "tn_items exRoofGroup = [exItem ''Roof'' ''r1'' True]"
    by (simp_all add: exRoofGroup_def)
  have n: "it_name (exItem ''Roof'' ''r1'' True) = ''Roof''"
    by (simp add: exItem_def)
  show ?thesis
    by (simp add: getFilteredModelTree_def t r g n)
qed

subsection \<open>The text flag\<close>

lemma extractCategory_text:
  "ud_isText (n_userData n) \<Longrightarrow> getElementMetadata mref n = None
     \<Longrightarrow> extractCategory mref n anc dname = ''Text & Annotations''"
  by (simp add: extractCategory_def)

lemma triangles_below:
  "(triangles g < 100) =
     (case g_indexCount g of
        Some c \<Rightarrow> c < 300
      | None \<Rightarrow> (case g_positionCount g of Some c \<Rightarrow> c < 300 | None \<Rightarrow> True))"
  by (auto simp: triangles_def split: option.splits)

text \<open>
  Claim C7. For a mesh with geometry that does not carry the text flag yet, the mesh pass
  of \<open>loadModel\<close> succeeds and sets the flag exactly when the triangle count, the index
  count divided by 3 or else the vertex count divided by 3, is below 100; a flagged
  node that matches no metadata record is categorized \<open>Text & Annotations\<close>.
\<close>

theorem text_like_threshold:
  assumes "n_isMesh child" and "n_geometry child = Some g" and "\<not> ud_isText (n_userData child)"
  shows "\<exists>child'. prepareMesh child = Inr child'
           \<and> (ud_isText (n_userData child') \<longleftrightarrow> triangles g < 100)
           \<and> triangles g =
               (case g_indexCount g of
                  Some c \<Rightarrow> real c / 3
                | None \<Rightarrow> real (case g_positionCount g of Some c \<Rightarrow> c | None \<Rightarrow> 0) / 3)
           \<and> (ud_isText (n_userData child') \<longrightarrow> getElementMetadata mref child' = None \<longrightarrow>
                extractCategory mref child' anc dname = ''Text & Annotations'')"
  using assms by (auto simp: prepareMesh_def triangles_def extractCategory_text)

theorem text_like_threshold_witness:
  "n_isMesh exTextMesh
   \<and> n_geometry exTextMesh = Some exTextGeometry
   \<and> \<not> ud_isText (n_userData exTextMesh)
   \<and> g_indexCount exTextGeometry = None
   \<and> triangles exTextGeometry = 30
   \<and> (\<exists>child'. prepareMesh exTextMesh = Inr child' \<and> ud_isText (n_userData child')
         \<and> extractCategory None child' [] ''Label'' = ''Text & Annotations'')"
proof -
  have a: "n_isMesh exTextMesh"
    and b: "n_geometry exTextMesh = Some exTextGeometry"
    and c: "\<not> ud_isText (n_userData exTextMesh)"
    by (simp_all add: exTextMesh_def exMesh_def exUserData_def)
  have t: "triangles exTextGeometry = 30"
    by (simp add: triangles_def exTextGeometry_def)
  have i: "g_indexCount exTextGeometry = None"
    by (simp add: exTextGeometry_def)
  have g: "getElementMetadata None x = None" for x
    by (simp add: getElementMetadata_def)
  have "\<exists>child'. prepareMesh exTextMesh = Inr child' \<and> ud_isText (n_userData child')
         \<and> extractCategory None child' [] ''Label'' = ''Text & Annotations''"
    using text_like_threshold [OF a b c, of None "[]" "''Label''"] unfolding t
    by (simp add: g) blast
  then show ?thesis
    using a b c t i by simp
qed

subsection \<open>Metadata parsing\<close>

text \<open>
  Claim C4 does not hold of the code: on the document \<open>exBadMetadata\<close> the parser reads a
  member of \<open>null\<close> and raises a \<open>TypeError\<close> to its caller.
\<close>

theorem parseJsonMetadata_raises:
  "parseJsonMetadata exBadMetadata = Inl TypeError"
  by (simp add: exBadMetadata_def parseJsonMetadata_def getProp_def addElement_def
      sectionFields_def bindE_def)

subsection \<open>Names and categories without metadata\<close>

lemma extractMeaningfulName_nonempty: "extractMeaningfulName s = Some r \<Longrightarrow> r \<noteq> []"
  by (auto simp: extractMeaningfulName_def Let_def split: if_splits option.splits)

lemma materialLoop_nonempty: "materialLoop nms = Some r \<Longrightarrow> r \<noteq> []"
  by (induction nms) (auto split: if_splits option.splits dest: extractMeaningfulName_nonempty)

lemma geometryStep_nonempty: "geometryStep n = Some r \<Longrightarrow> r \<noteq> []"
  by (auto simp: geometryStep_def split: if_splits option.splits dest: extractMeaningfulName_nonempty)

lemma materialStep_nonempty: "materialStep n = Some r \<Longrightarrow> r \<noteq> []"
  by (auto simp: materialStep_def simp del: materialLoop.simps split: material.splits
      dest: materialLoop_nonempty)

lemma cleanName_nonempty: "cleanName nm = Some r \<Longrightarrow> r \<noteq> []"
  by (auto simp: cleanName_def split: if_splits dest: extractMeaningfulName_nonempty)

lemma getMeshDisplayName_nonempty:
  "getElementMetadata mref n = None \<Longrightarrow> getMeshDisplayName mref n anc index \<noteq> []"
  by (auto simp: getMeshDisplayName_def split: option.splits
      dest: geometryStep_nonempty materialStep_nonempty cleanName_nonempty)

lemma find_in_set: "find P xs = Some x \<Longrightarrow> x \<in> set xs"
  by (induction xs) (auto split: if_splits)

lemma matchCategory_label: "matchCategory s = Some c \<Longrightarrow> c \<in> set (map fst categoryPatterns)"
  by (force simp: matchCategory_def dest!: find_in_set)

lemma parentCategory_label:
  "parentCategory anc depth = Some c \<Longrightarrow> c \<in> set (map fst categoryPatterns)"
  by (induction anc arbitrary: depth)
     (auto split: if_splits option.splits dest: matchCategory_label)

lemma generic_label: "''Generic Models'' \<in> fst ` set categoryPatterns"
  by (simp add: categoryPatterns_def)

lemma extractCategory_label:
  "getElementMetadata mref n = None \<Longrightarrow> extractCategory mref n anc dname \<in> set categoryLabels"
  using generic_label
  by (auto simp: extractCategory_def categoryLabels_def split: option.splits
      dest: matchCategory_label parentCategory_label)

subsection \<open>The matcher on the parsed records\<close>

text \<open>
  On an index whose records hold strings, the functions on the parsed records return what
  the functions on the records of string fields return.
\<close>

lemma guidHitRaw_rawOf: "guidHitRaw guid (rawOf m) = Inr (guidHit guid m)"
  by (simp add: guidHitRaw_def rawOf_def guidHit_def)

lemma findGuidHit_rawOf:
  "findGuidHit guid (map rawOf ms) = Inr (map_option rawOf (find (guidHit guid) ms))"
  by (induction ms) (simp_all add: guidHitRaw_rawOf)

lemma guidLoopRaw_rawOf:
  "guidLoopRaw (map (\<lambda>(k, m). (k, rawOf m)) idx) strs = Inr (map_option rawOf (guidLoop idx strs))"
proof -
  have s: "map snd (map (\<lambda>(k, m). (k, rawOf m)) idx) = map rawOf (map snd idx)"
    by (induction idx) auto
  show ?thesis
  proof (induction strs)
    case Nil
    then show ?case by simp
  next
    case (Cons str strs)
    show ?case
    proof (cases "guidMatch str")
      case None
      then show ?thesis using Cons by simp
    next
      case (Some guid)
      show ?thesis
        unfolding guidLoopRaw.simps guidLoop.simps Some s findGuidHit_rawOf
        using Cons by (cases "find (guidHit guid) (map snd idx)") simp_all
    qed
  qed
qed

lemma map_of_rawOf:
  "map_of (map (\<lambda>(k, m). (k, rawOf m)) idx) k = map_option rawOf (map_of idx k)"
  by (induction idx) auto

lemma getElementMetadataRaw_rawOf:
  "getElementMetadataRaw (map_option (map (\<lambda>(k, m). (k, rawOf m))) mref) n =
     Inr (map_option rawOf (getElementMetadata mref n))"
  by (cases mref)
     (auto simp: getElementMetadataRaw_def getElementMetadata_def guidLoopRaw_rawOf map_of_rawOf
      split: option.splits)

lemma getMeshDisplayName_no_index:
  "getElementMetadata mref n = None \<Longrightarrow>
     getMeshDisplayName mref n anc index = getMeshDisplayName None n anc index"
  by (simp add: getMeshDisplayName_def getElementMetadata_def)

lemma extractCategory_no_index:
  "getElementMetadata mref n = None \<Longrightarrow>
     extractCategory mref n anc dname = extractCategory None n anc dname"
  by (simp add: extractCategory_def getElementMetadata_def)

lemma getMeshDisplayNameRaw_rawOf:
  "getMeshDisplayNameRaw (map_option (map (\<lambda>(k, m). (k, rawOf m))) mref) n anc index =
     Inr (JStr (getMeshDisplayName mref n anc index))"
proof (cases "getElementMetadata mref n")
  case None
  then show ?thesis
    by (simp add: getMeshDisplayNameRaw_def getElementMetadataRaw_rawOf
        getMeshDisplayName_no_index)
next
  case (Some m)
  have r: "getElementMetadataRaw (map_option (map (\<lambda>(k, m). (k, rawOf m))) mref) n
      = Inr (Some (rawOf m))"
    by (simp add: getElementMetadataRaw_rawOf Some)
  show ?thesis
    unfolding getMeshDisplayNameRaw_def r
    by (simp add: rawOf_def getMeshDisplayName_def Some)
qed

lemma extractCategoryRaw_rawOf:
  "(\<forall>m. getElementMetadata mref n = Some m \<longrightarrow> category m \<notin> set objectPrototypeMembers) \<Longrightarrow>
   extractCategoryRaw (map_option (map (\<lambda>(k, m). (k, rawOf m))) mref) n anc (JStr dname) =
     Inr (Json (JStr (extractCategory mref n anc dname)))"
proof (cases "getElementMetadata mref n")
  case None
  have r: "getElementMetadataRaw (map_option (map (\<lambda>(k, m). (k, rawOf m))) mref) n = Inr None"
    by (simp add: getElementMetadataRaw_rawOf None)
  have n: "getElementMetadata None n = None"
    by (simp add: getElementMetadata_def)
  show ?thesis
    unfolding extractCategoryRaw_def r extractCategory_no_index [OF None]
    by (simp add: extractCategory_def n)
next
  case (Some m)
  assume "\<forall>m. getElementMetadata mref n = Some m \<longrightarrow> category m \<notin> set objectPrototypeMembers"
  then have c: "category m \<notin> set objectPrototypeMembers"
    using Some by simp
  have r: "getElementMetadataRaw (map_option (map (\<lambda>(k, m). (k, rawOf m))) mref) n
      = Inr (Some (rawOf m))"
    by (simp add: getElementMetadataRaw_rawOf Some)
  have n: "getElementMetadata None n = None"
    by (simp add: getElementMetadata_def)
  have f: "r_category (rawOf m) = JStr (category m)"
    by (simp add: rawOf_def)
  show ?thesis
  proof (cases "category m = []")
    case True
    then show ?thesis
      unfolding extractCategoryRaw_def r
      by (simp add: f extractCategory_def Some n)
  next
    case False
    then show ?thesis
      unfolding extractCategoryRaw_def r
      using c
      by (simp add: f extractCategory_def Some getCategoryFromOSTRaw_def getCategoryFromOST_def
          split: option.splits)
  qed
qed

text \<open>
  The lookup cannot raise when every external identifier of the index is a string.
\<close>

lemma findGuidHit_strings:
  "list_all (\<lambda>m. \<exists>s. r_externalId m = JStr s) ms \<Longrightarrow> \<exists>r. findGuidHit guid ms = Inr r"
  by (induction ms) (auto simp: guidHitRaw_def)

lemma guidLoopRaw_strings:
  "list_all (\<lambda>m. \<exists>s. r_externalId m = JStr s) (map snd idx) \<Longrightarrow> \<exists>r. guidLoopRaw idx strs = Inr r"
proof (induction strs)
  case Nil
  then show ?case by simp
next
  case (Cons str strs)
  show ?case
  proof (cases "guidMatch str")
    case None
    then show ?thesis using Cons by simp
  next
    case (Some guid)
    obtain r where r: "findGuidHit guid (map snd idx) = Inr r"
      using findGuidHit_strings [OF Cons.prems, of guid] by blast
    show ?thesis
      using Cons Some r by (cases r) simp_all
  qed
qed

lemma getElementMetadataRaw_strings:
  "list_all (\<lambda>m. \<exists>s. r_externalId m = JStr s) (map snd idx) \<Longrightarrow>
     \<exists>r. getElementMetadataRaw (Some idx) n = Inr r"
  using guidLoopRaw_strings [of idx "searchStrings n"]
  by (auto simp: getElementMetadataRaw_def split: option.splits sum.splits)

text \<open>
  What the fall-back gives when the lookup returns without a record: a name that is not
  empty and a category of the fixed labels; the name \<open>Element_\<close> followed by the first 8
  characters of the identity when no name of the node or its ancestors gives one, and
  the category \<open>Generic Models\<close> when the node is not text-like and no keyword occurs.
\<close>

lemma fallback_on_records:
  "(mref = None \<or> mref = Some [] \<longrightarrow> getElementMetadataRaw mref n = Inr None)
   \<and> (getElementMetadataRaw mref n = Inr None \<longrightarrow>
        (\<exists>s. getMeshDisplayNameRaw mref n anc index = Inr (JStr s) \<and> s \<noteq> [])
        \<and> (\<exists>c. extractCategoryRaw mref n anc (JStr dname) = Inr (Json (JStr c))
                \<and> c \<in> set categoryLabels)
        \<and> (geometryStep n = None \<and> materialStep n = None \<and> cleanName (n_name n) = None
             \<and> parentName anc 0 = None \<longrightarrow>
           getMeshDisplayNameRaw mref n anc index = Inr (JStr (''Element_'' @ take 8 (n_uuid n))))
        \<and> (\<not> ud_isText (n_userData n) \<and> matchCategory (searchStr n dname) = None
             \<and> parentCategory anc 0 = None \<longrightarrow>
           extractCategoryRaw mref n anc (JStr dname) = Inr (Json (JStr ''Generic Models''))))"
proof -
  have n: "getElementMetadata None n = None"
    by (simp add: getElementMetadata_def)
  have "getMeshDisplayName None n anc index \<noteq> []"
    using n by (rule getMeshDisplayName_nonempty)
  moreover have "extractCategory None n anc dname \<in> set categoryLabels"
    using n by (rule extractCategory_label)
  moreover have "extractCategory None n anc dname = ''Text & Annotations''"
    if "ud_isText (n_userData n)"
    using that by (simp add: extractCategory_def n)
  moreover have "getMeshDisplayName None n anc index = ''Element_'' @ take 8 (n_uuid n)"
    if "geometryStep n = None" "materialStep n = None" "cleanName (n_name n) = None"
      "parentName anc 0 = None"
    using that by (simp add: getMeshDisplayName_def n)
  moreover have "extractCategory None n anc dname = ''Generic Models''"
    if "\<not> ud_isText (n_userData n)" "matchCategory (searchStr n dname) = None"
      "parentCategory anc 0 = None"
    using that by (simp add: extractCategory_def n)
  ultimately show ?thesis
    by (auto simp: getElementMetadataRaw_def getMeshDisplayNameRaw_def extractCategoryRaw_def)
qed

text \<open>The fall-back at a mesh without any name and without an index.\<close>

lemma exBare_search: "matchCategory (searchStr exBareMesh ''Element_abcdef01'') = None"
  by (simp add: searchStr_def exBareMesh_def exMesh_def geometryName_def materialName_def
      toLowerCase_def toLowerChar_def matchCategory_def categoryPatterns_def)

lemma fallback_on_records_example:
  "getElementMetadataRaw None exBareMesh = Inr None
   \<and> getMeshDisplayNameRaw None exBareMesh [] 0 = Inr (JStr ''Element_abcdef01'')
   \<and> extractCategoryRaw None exBareMesh [] (JStr ''Element_abcdef01'')
       = Inr (Json (JStr ''Generic Models''))"
proof -
  have s: "geometryStep exBareMesh = None" "materialStep exBareMesh = None"
    "cleanName (n_name exBareMesh) = None" "parentName [] 0 = None"
    "\<not> ud_isText (n_userData exBareMesh)" "parentCategory [] 0 = None"
    "take 8 (n_uuid exBareMesh) = ''abcdef01''"
    by (simp_all add: exBareMesh_def exMesh_def exUserData_def geometryStep_def
        materialStep_def cleanName_def)
  show ?thesis
    using fallback_on_records [of None exBareMesh "[]" 0 "''Element_abcdef01''"]
      s exBare_search
    by simp
qed

text \<open>
  Claim C5 does not hold of the code. \<open>parseJsonMetadata\<close> keeps the number \<open>12345\<close> of
  the document \<open>exNumericMetadata\<close> as the external identifier of its record. For the
  mesh \<open>exGuidNamedMesh\<close>, whose name holds a GUID, the lookup calls \<open>toLowerCase\<close> on that
  number and raises a \<open>TypeError\<close>; \<open>getMeshDisplayName\<close> and \<open>extractCategory\<close> begin with
  the lookup and raise with it, where the index holds no record that matches the mesh.
\<close>

theorem fallback_raises:
  "parseJsonMetadata exNumericMetadata = Inr exNumericIndex
   \<and> getMeshDisplayNameRaw (Some exNumericIndex) exGuidNamedMesh [] 0 = Inl TypeError
   \<and> extractCategoryRaw (Some exNumericIndex) exGuidNamedMesh [] (JStr ''Wall'') = Inl TypeError"
proof -
  have p: "parseJsonMetadata exNumericMetadata = Inr exNumericIndex"
    by (simp add: exNumericMetadata_def exNumericIndex_def parseJsonMetadata_def getProp_def
        addElement_def sectionFields_def bindE_def toDec.simps)
  have g: "getElementMetadataRaw (Some exNumericIndex) exGuidNamedMesh = Inl TypeError"
    by code_simp
  show ?thesis
    using p g by (simp add: getMeshDisplayNameRaw_def extractCategoryRaw_def)
qed

subsection \<open>The digit run\<close>

lemma takeWhile_run:
  assumes "list_all isDigit run" and "post = [] \<or> \<not> isDigit (hd post)"
  shows "takeWhile isDigit (run @ post) = run"
proof -
  have "takeWhile isDigit post = []"
    using assms(2) by (cases post) auto
  moreover have "takeWhile isDigit (run @ post) = run @ takeWhile isDigit post"
    using assms(1) by (intro takeWhile_append2) (simp add: list_all_iff)
  ultimately show ?thesis by simp
qed

lemma digitRun4_sound:
  "digitRun4 s = Some r \<Longrightarrow> 4 \<le> length r \<and> list_all isDigit r \<and> sublist r s"
proof (induction s)
  case Nil
  then show ?case by simp
next
  case (Cons c cs)
  show ?case
  proof (cases "4 \<le> length (takeWhile isDigit (c # cs))")
    case True
    then have r: "r = takeWhile isDigit (c # cs)"
      using Cons.prems by simp
    have "prefix r (c # cs)"
      unfolding r by (metis takeWhile_dropWhile_id prefixI)
    then show ?thesis
      using True r by (auto simp: list_all_iff dest: set_takeWhileD)
  next
    case False
    then have "digitRun4 cs = Some r"
      using Cons.prems by simp
    then show ?thesis
      using Cons.IH by (auto simp: sublist_Cons_right)
  qed
qed

lemma digitRun4_complete:
  assumes "4 \<le> length d" and "list_all isDigit d"
  shows "digitRun4 (a @ d @ b) \<noteq> None"
proof (induction a)
  case Nil
  obtain c cs where d: "d = c # cs"
    using assms(1) by (cases d) auto
  have "takeWhile isDigit (d @ b) = d @ takeWhile isDigit b"
    using assms(2) by (intro takeWhile_append2) (simp add: list_all_iff)
  then have "4 \<le> length (takeWhile isDigit ((c # cs) @ b))"
    using assms(1) d by simp
  then show ?case
    unfolding d by simp
next
  case (Cons x a)
  then show ?case by simp
qed

lemma digitRun4_first:
  assumes run: "list_all isDigit run" "4 \<le> length run"
    and post: "post = [] \<or> \<not> isDigit (hd post)"
  shows "pre = [] \<or> \<not> isDigit (last pre)
           \<Longrightarrow> \<not> (\<exists>a d b. pre = a @ d @ b \<and> 4 \<le> length d \<and> list_all isDigit d)
           \<Longrightarrow> digitRun4 (pre @ run @ post) = Some run"
proof (induction pre)
  case Nil
  obtain c cs where r: "run = c # cs"
    using run(2) by (cases run) auto
  have "takeWhile isDigit ((c # cs) @ post) = c # cs"
    using takeWhile_run [OF run(1) post] r by simp
  then show ?case
    using run(2) r by simp
next
  case (Cons p ps)
  let ?rest = "run @ post"
  let ?t = "takeWhile isDigit ((p # ps) @ ?rest)"
  have short: "\<not> 4 \<le> length ?t"
  proof
    assume len: "4 \<le> length ?t"
    have t: "?t = take (length ?t) ((p # ps) @ ?rest)"
      by (rule takeWhile_eq_take)
    from t have "take 4 ?t = take 4 (take (length ?t) ((p # ps) @ ?rest))"
      by (rule arg_cong)
    also have "\<dots> = take 4 ((p # ps) @ ?rest)"
      using len by (simp only: take_take min_absorb1)
    finally have "take 4 ((p # ps) @ ?rest) = take 4 ?t"
      by (rule sym)
    then have digits: "list_all isDigit (take 4 ((p # ps) @ ?rest))"
      by (auto simp: list_all_iff dest!: in_set_takeD set_takeWhileD)
    show False
    proof (cases "4 \<le> length (p # ps)")
      case True
      then have "take 4 ((p # ps) @ ?rest) = take 4 (p # ps)"
        by simp
      then have "list_all isDigit (take 4 (p # ps))" "length (take 4 (p # ps)) = 4"
        using digits True by simp_all
      moreover have "p # ps = [] @ take 4 (p # ps) @ drop 4 (p # ps)"
        by simp
      ultimately show False
        using Cons.prems(2) by (metis order_refl)
    next
      case False
      then have "take (length (p # ps)) (take 4 ((p # ps) @ ?rest)) = p # ps"
        by (simp add: min_absorb1)
      then have "list_all isDigit (p # ps)"
        using digits by (metis list_all_iff in_set_takeD)
      then have "isDigit (last (p # ps))"
        by (metis last_in_set list.distinct(1) list_all_iff)
      then show False
        using Cons.prems(1) by simp
    qed
  qed
  have "ps = [] \<or> \<not> isDigit (last ps)"
    using Cons.prems(1) by (cases ps) auto
  moreover have "\<not> (\<exists>a d b. ps = a @ d @ b \<and> 4 \<le> length d \<and> list_all isDigit d)"
  proof
    assume "\<exists>a d b. ps = a @ d @ b \<and> 4 \<le> length d \<and> list_all isDigit d"
    then obtain a d b where "ps = a @ d @ b" "4 \<le> length d" "list_all isDigit d"
      by blast
    then have "p # ps = (p # a) @ d @ b \<and> 4 \<le> length d \<and> list_all isDigit d"
      by simp
    then show False
      using Cons.prems(2) by blast
  qed
  ultimately have "digitRun4 (ps @ ?rest) = Some run"
    by (rule Cons.IH)
  then show ?case
    using short by simp
qed

text \<open>
  Claim C6. A string that contains a run of at least 4 digits is cleaned to \<open>Element_\<close>
  followed by a run of at least 4 of its digits, and that run is the first maximal one:
  the one that no digit precedes or follows and before which no 4 digits stand in a row.
  No token is stripped in this case. A node named \<open>Wall-Element_4821-mesh\<close> whose
  geometry and materials yield no name gets, without an index, the name \<open>Element_4821\<close>.
\<close>

theorem digit_run_precedence:
  "(spec_hasDigitRun s \<longrightarrow>
      (\<exists>run. 4 \<le> length run \<and> list_all isDigit run \<and> sublist run s
         \<and> extractMeaningfulName s = Some (''Element_'' @ run)))
   \<and> (\<forall>pre run post.
        s = pre @ run @ post \<and> list_all isDigit run \<and> 4 \<le> length run
        \<and> (post = [] \<or> \<not> isDigit (hd post)) \<and> (pre = [] \<or> \<not> isDigit (last pre))
        \<and> \<not> spec_hasDigitRun pre \<longrightarrow>
        extractMeaningfulName s = Some (''Element_'' @ run))
   \<and> (n_name n = ''Wall-Element_4821-mesh'' \<and> geometryStep n = None \<and> materialStep n = None \<longrightarrow>
        getMeshDisplayName None n anc index = ''Element_4821'')"
proof (intro conjI impI allI)
  assume "spec_hasDigitRun s"
  then obtain a d b where s: "s = a @ d @ b" and d: "4 \<le> length d" "list_all isDigit d"
    unfolding spec_hasDigitRun_def by blast
  have "digitRun4 s \<noteq> None"
    unfolding s by (rule digitRun4_complete [OF d])
  then obtain run where r: "digitRun4 s = Some run"
    by blast
  have "d \<noteq> []"
    using d(1) by auto
  then have "s \<noteq> []"
    unfolding s by simp
  then have "extractMeaningfulName s = Some (''Element_'' @ run)"
    unfolding extractMeaningfulName_def r by simp
  then show "\<exists>run. 4 \<le> length run \<and> list_all isDigit run \<and> sublist run s
         \<and> extractMeaningfulName s = Some (''Element_'' @ run)"
    using digitRun4_sound [OF r] by blast
next
  fix pre run post
  assume a: "s = pre @ run @ post \<and> list_all isDigit run \<and> 4 \<le> length run
        \<and> (post = [] \<or> \<not> isDigit (hd post)) \<and> (pre = [] \<or> \<not> isDigit (last pre))
        \<and> \<not> spec_hasDigitRun pre"
  then have s: "s = pre @ run @ post" and r1: "list_all isDigit run" and r2: "4 \<le> length run"
    and r3: "post = [] \<or> \<not> isDigit (hd post)" and r4: "pre = [] \<or> \<not> isDigit (last pre)"
    and r5: "\<not> (\<exists>a d b. pre = a @ d @ b \<and> 4 \<le> length d \<and> list_all isDigit d)"
    unfolding spec_hasDigitRun_def by blast+
  have r: "digitRun4 s = Some run"
    unfolding s by (rule digitRun4_first [OF r1 r2 r3 r4 r5])
  have "run \<noteq> []"
    using r2 by auto
  then have "s \<noteq> []"
    unfolding s by simp
  then show "extractMeaningfulName s = Some (''Element_'' @ run)"
    unfolding extractMeaningfulName_def r by simp
next
  assume a: "n_name n = ''Wall-Element_4821-mesh'' \<and> geometryStep n = None \<and> materialStep n = None"
  have e: "extractMeaningfulName ''Wall-Element_4821-mesh'' = Some ''Element_4821''"
    by (simp add: extractMeaningfulName_def isDigit_def)
  have c: "cleanName ''Wall-Element_4821-mesh'' = Some ''Element_4821''"
    unfolding cleanName_def e by simp
  have g: "getElementMetadata None n = None"
    by (simp add: getElementMetadata_def)
  show "getMeshDisplayName None n anc index = ''Element_4821''"
    unfolding getMeshDisplayName_def g using a by (simp add: c)
qed

theorem digit_run_precedence_witness:
  "spec_hasDigitRun ''Wall-Element_4821-mesh''
   \<and> \<not> spec_hasDigitRun ''Wall-Element_''
   \<and> extractMeaningfulName ''Wall-Element_4821-mesh'' = Some ''Element_4821''
   \<and> geometryStep exWallMesh = None \<and> materialStep exWallMesh = None
   \<and> getMeshDisplayName None exWallMesh [] 0 = ''Element_4821''"
proof -
  note th = digit_run_precedence [of "''Wall-Element_4821-mesh''" exWallMesh "[]" 0]
  have h: "spec_hasDigitRun ''Wall-Element_4821-mesh''"
    unfolding spec_hasDigitRun_def
    by (rule exI [of _ "''Wall-Element_''"], rule exI [of _ "''4821''"],
        rule exI [of _ "''-mesh''"]) (simp add: isDigit_def)
  have nd: "\<forall>c \<in> set ''Wall-Element_''. \<not> isDigit c"
    by (simp add: isDigit_def)
  have np: "\<not> spec_hasDigitRun ''Wall-Element_''"
  proof
    assume "spec_hasDigitRun ''Wall-Element_''"
    then obtain a x b where e: "''Wall-Element_'' = a @ x @ b" and l: "4 \<le> length x"
      and dx: "list_all isDigit x"
      unfolding spec_hasDigitRun_def by blast
    from l obtain c cs where x: "x = c # cs"
      by (cases x) auto
    have "c \<in> set (a @ x @ b)"
      unfolding x by simp
    then have "c \<in> set ''Wall-Element_''"
      unfolding e [symmetric] .
    moreover have "isDigit c"
      using dx unfolding x by simp
    ultimately show False
      using nd by blast
  qed
  have g: "geometryStep exWallMesh = None" "materialStep exWallMesh = None"
    "n_name exWallMesh = ''Wall-Element_4821-mesh''"
    by (simp_all add: exWallMesh_def exMesh_def geometryStep_def materialStep_def)
  have e: "extractMeaningfulName ''Wall-Element_4821-mesh'' = Some (''Element_'' @ ''4821'')"
    by (rule th [THEN conjunct2, THEN conjunct1, rule_format,
          of "''Wall-Element_''" "''4821''" "''-mesh''"])
       (simp add: np isDigit_def)
  have m: "getMeshDisplayName None exWallMesh [] 0 = ''Element_4821''"
    by (rule th [THEN conjunct2, THEN conjunct2, rule_format]) (simp add: g)
  show ?thesis
    using h np e g m by simp
qed

subsection \<open>Matching by GUID\<close>













subsection \<open>The tree builder\<close>

lemma it_id_mkItem: "it_id (mkItem mref p i) = n_uuid (info (fst p))"
  by (cases p) (simp add: mkItem_def Let_def)

lemma meshIds_Cons:
  "meshIds (p # ps) =
     (if n_isMesh (info (fst p)) then n_uuid (info (fst p)) # meshIds ps else meshIds ps)"
  by (simp add: meshIds_def)

lemma collectMeshes_ids:
  "collectMeshes mref ps P i = (items, P') \<Longrightarrow>
     distinct (map it_id items)
     \<and> set (map it_id items) = set (meshIds ps) - set P
     \<and> set P' = set P \<union> set (meshIds ps)"
proof (induction ps arbitrary: P i items P')
  case Nil
  then show ?case by (simp add: meshIds_def)
next
  case (Cons p ps)
  let ?u = "n_uuid (info (fst p))"
  show ?case
  proof (cases "n_isMesh (info (fst p)) \<and> ?u \<notin> set P")
    case True
    obtain items0 P0 where c: "collectMeshes mref ps (P @ [?u]) (i + 1) = (items0, P0)"
      by (cases "collectMeshes mref ps (P @ [?u]) (i + 1)")
    then have r: "items = mkItem mref p i # items0" "P' = P0"
      using Cons.prems True by simp_all
    from Cons.IH [OF c]
    have ih: "distinct (map it_id items0)"
      "set (map it_id items0) = set (meshIds ps) - set (P @ [?u])"
      "set P0 = set (P @ [?u]) \<union> set (meshIds ps)"
      by simp_all
    show ?thesis
      unfolding r using True ih by (auto simp: it_id_mkItem meshIds_Cons)
  next
    case False
    then have c: "collectMeshes mref ps P i = (items, P')"
      using Cons.prems by auto
    from Cons.IH [OF c] show ?thesis
      using False by (auto simp: meshIds_Cons)
  qed
qed

lemma traverse_subtree:
  "(nd, a) \<in> set (traverse anc0 scene) \<Longrightarrow> set (traverse a nd) \<subseteq> set (traverse anc0 scene)"
proof (induction scene arbitrary: anc0)
  case (Node n cs)
  show ?case
  proof (cases "(nd, a) = (Node n cs, anc0)")
    case True
    then show ?thesis by simp
  next
    case False
    then obtain c where c: "c \<in> set cs" "(nd, a) \<in> set (traverse (n # anc0) c)"
      using Node.prems by auto
    then have "set (traverse a nd) \<subseteq> set (traverse (n # anc0) c)"
      by (rule Node.IH)
    then show ?thesis
      using c(1) by auto
  qed
qed

lemma findNodeByUuid_in:
  "findNodeByUuid anc0 scene u = Some q \<Longrightarrow> q \<in> set (traverse anc0 scene)"
  unfolding findNodeByUuid_def by (drule find_in_set) simp

lemma meshIds_mono: "set ps \<subseteq> set qs \<Longrightarrow> set (meshIds ps) \<subseteq> set (meshIds qs)"
  by (auto simp: meshIds_def)

lemma meshIds_below:
  assumes "(g, a) \<in> set (traverse anc0 scene)"
  shows "set (meshIds (tl (traverse a g))) \<subseteq> set (meshIds (traverse anc0 scene))"
proof -
  have "set (tl (traverse a g)) \<subseteq> set (traverse a g)"
    by (cases "traverse a g") auto
  then have "set (tl (traverse a g)) \<subseteq> set (traverse anc0 scene)"
    using traverse_subtree [OF assms] by blast
  then show ?thesis
    by (rule meshIds_mono)
qed

lemma treeIds_append: "treeIds (t1 @ t2) = treeIds t1 @ treeIds t2"
  by (simp add: treeIds_def)

lemma groupStep_inv:
  assumes inv: "distinct (treeIds tree)" "set (treeIds tree) = set P"
      "set P \<subseteq> set (meshIds (traverse anc0 scene))"
      "\<forall>t \<in> set tree. tn_type t = ''group'' \<and> tn_count t = length (tn_items t)"
    and step: "groupStep mref ex anc0 scene (tree, P) gi = (tree', P')"
  shows "distinct (treeIds tree') \<and> set (treeIds tree') = set P'
      \<and> set P' \<subseteq> set (meshIds (traverse anc0 scene))
      \<and> (\<forall>t \<in> set tree'. tn_type t = ''group'' \<and> tn_count t = length (tn_items t))"
proof (cases "findNodeByUuid anc0 scene (gi_uuid gi)")
  case None
  then have "tree' = tree" "P' = P"
    using step by (simp_all add: groupStep_def)
  then show ?thesis
    using inv by simp
next
  case (Some q)
  obtain g a where q: "q = (g, a)"
    by (cases q)
  have mem: "(g, a) \<in> set (traverse anc0 scene)"
    using findNodeByUuid_in Some q by blast
  obtain items P1 where c: "collectMeshes mref (tl (traverse a g)) P 0 = (items, P1)"
    by (cases "collectMeshes mref (tl (traverse a g)) P 0")
  from collectMeshes_ids [OF c]
  have ids: "distinct (map it_id items)"
    "set (map it_id items) = set (meshIds (tl (traverse a g))) - set P"
    "set P1 = set P \<union> set (meshIds (tl (traverse a g)))"
    by simp_all
  have sub: "set (meshIds (tl (traverse a g))) \<subseteq> set (meshIds (traverse anc0 scene))"
    by (rule meshIds_below [OF mem])
  show ?thesis
  proof (cases "items = []")
    case True
    then have r: "tree' = tree" "P' = P1"
      using step Some q c by (simp_all add: groupStep_def)
    have "set (meshIds (tl (traverse a g))) \<subseteq> set P"
      using ids(2) True by auto
    then have "set P1 = set P"
      using ids(3) by auto
    then show ?thesis
      unfolding r using inv by simp
  next
    case False
    then obtain t where r: "tree' = tree @ [t]" "P' = P1" and t: "tn_items t = items"
      "tn_type t = ''group''" "tn_count t = length items"
      using step Some q c by (auto simp: groupStep_def Let_def)
    have "treeIds tree' = treeIds tree @ map it_id items"
      unfolding r by (simp add: treeIds_def t)
    then show ?thesis
      unfolding r using inv ids sub t by auto
  qed
qed

lemma foldl_groupStep_inv:
  assumes "distinct (treeIds tree)" "set (treeIds tree) = set P"
      "set P \<subseteq> set (meshIds (traverse anc0 scene))"
      "\<forall>t \<in> set tree. tn_type t = ''group'' \<and> tn_count t = length (tn_items t)"
    and "foldl (groupStep mref ex anc0 scene) (tree, P) gs = (tree', P')"
  shows "distinct (treeIds tree') \<and> set (treeIds tree') = set P'
      \<and> set P' \<subseteq> set (meshIds (traverse anc0 scene))
      \<and> (\<forall>t \<in> set tree'. tn_type t = ''group'' \<and> tn_count t = length (tn_items t))"
  using assms
proof (induction gs arbitrary: tree P)
  case Nil
  then show ?case by simp
next
  case (Cons gi gs)
  obtain tree1 P1 where s: "groupStep mref ex anc0 scene (tree, P) gi = (tree1, P1)"
    by (cases "groupStep mref ex anc0 scene (tree, P) gi")
  from groupStep_inv [OF Cons.prems(1-4) s]
  have i: "distinct (treeIds tree1)" "set (treeIds tree1) = set P1"
    "set P1 \<subseteq> set (meshIds (traverse anc0 scene))"
    "\<forall>t \<in> set tree1. tn_type t = ''group'' \<and> tn_count t = length (tn_items t)"
    by simp_all
  have "foldl (groupStep mref ex anc0 scene) (tree1, P1) gs = (tree', P')"
    using Cons.prems(5) s by simp
  from Cons.IH [OF i this] show ?case .
qed

lemma groupPass_inv:
  assumes "groupPass mref ex anc0 scene = (tree, P)"
  shows "distinct (treeIds tree) \<and> set (treeIds tree) = set P
      \<and> set P \<subseteq> set (meshIds (traverse anc0 scene))
      \<and> (\<forall>t \<in> set tree. tn_type t = ''group'' \<and> tn_count t = length (tn_items t))"
proof (cases "1 < length (groupNodes anc0 scene)")
  case True
  then have f: "foldl (groupStep mref ex anc0 scene) ([], []) (groupNodes anc0 scene) = (tree, P)"
    using assms by (simp add: groupPass_def)
  show ?thesis
    by (rule foldl_groupStep_inv [OF _ _ _ _ f]) (simp_all add: treeIds_def)
next
  case False
  then have "tree = []" "P = []"
    using assms by (simp_all add: groupPass_def)
  then show ?thesis
    by (simp add: treeIds_def)
qed

lemma pushCategory_mset:
  "mset (concat (map snd (pushCategory acc it))) = mset (concat (map snd acc)) + {#it#}"
  by (induction acc it rule: pushCategory.induct) auto

lemma foldl_pushCategory_mset:
  "mset (concat (map snd (foldl pushCategory acc its))) = mset (concat (map snd acc)) + mset its"
  by (induction its arbitrary: acc) (simp_all add: pushCategory_mset)

lemma mset_concat_cong:
  "mset xs = mset ys \<Longrightarrow> mset (concat (map f xs)) = mset (concat (map f ys))"
proof -
  assume a: "mset xs = mset ys"
  have "mset (concat (map f zs)) = (\<Sum>x\<in>#mset zs. mset (f x))" for zs
    by (induction zs) auto
  then show ?thesis
    using a by simp
qed

lemma objectEntries_mset: "mset (objectEntries kvs) = mset kvs"
  by (simp add: objectEntries_def)

lemma tn_items_categoryNode: "tn_items (categoryNode ex kv) = snd kv"
  by (cases kv) (simp add: categoryNode_def)

lemma categoryTree_mset:
  "mset (concat (map tn_items (categoryTree ex its))) = mset its"
proof (cases "its = []")
  case True
  then show ?thesis by (simp add: categoryTree_def)
next
  case False
  have "concat (map tn_items (categoryTree ex its))
          = concat (map snd (objectEntries (foldl pushCategory [] its)))"
    using False by (simp add: categoryTree_def comp_def tn_items_categoryNode)
  also have "mset \<dots> = mset (concat (map snd (foldl pushCategory [] its)))"
    by (rule mset_concat_cong) (rule objectEntries_mset)
  also have "\<dots> = mset its"
    by (simp add: foldl_pushCategory_mset)
  finally show ?thesis .
qed

lemma categoryTree_count:
  "\<forall>t \<in> set (categoryTree ex its). tn_count t = length (tn_items t)"
  by (auto simp: categoryTree_def categoryNode_def)

lemma treeIds_length: "length (treeIds tree) = length (concat (map tn_items tree))"
  by (simp add: treeIds_def)

lemma sum_counts:
  "\<forall>t \<in> set tree. tn_count t = length (tn_items t)
     \<Longrightarrow> sum_list (map tn_count tree) = length (concat (map tn_items tree))"
  by (induction tree) auto

text \<open>
  Claim C1. The identities of the entries of the built tree are pairwise different and
  are exactly the identities of the renderable nodes of the scene, whichever pass made
  the entry. For a scene whose renderable nodes have pairwise different identities, N of
  them, the entries are those N identities, each once: the tree has N entries and its
  counts add up to N.
\<close>

theorem partition_invariant:
  "distinct (treeIds (br_tree (buildModelTree mref ex anc0 modelScene)))
   \<and> set (treeIds (br_tree (buildModelTree mref ex anc0 modelScene)))
       = set (meshIds (traverse anc0 modelScene))
   \<and> (distinct (meshIds (traverse anc0 modelScene)) \<longrightarrow>
        mset (treeIds (br_tree (buildModelTree mref ex anc0 modelScene)))
          = mset (meshIds (traverse anc0 modelScene))
        \<and> length (concat (map tn_items (br_tree (buildModelTree mref ex anc0 modelScene))))
          = length (filter (\<lambda>p. n_isMesh (info (fst p))) (traverse anc0 modelScene))
        \<and> sum_list (map tn_count (br_tree (buildModelTree mref ex anc0 modelScene)))
          = length (filter (\<lambda>p. n_isMesh (info (fst p))) (traverse anc0 modelScene)))"
proof -
  let ?all = "traverse anc0 modelScene"
  obtain gt P where g: "groupPass mref ex anc0 modelScene = (gt, P)"
    by (cases "groupPass mref ex anc0 modelScene")
  obtain un P' where u: "collectMeshes mref ?all P 0 = (un, P')"
    by (cases "collectMeshes mref ?all P 0")
  let ?tree = "gt @ categoryTree ex un"
  have tree: "br_tree (buildModelTree mref ex anc0 modelScene) = ?tree"
    by (simp add: buildModelTree_def g u Let_def)
  from groupPass_inv [OF g]
  have gi: "distinct (treeIds gt)" "set (treeIds gt) = set P" "set P \<subseteq> set (meshIds ?all)"
    "\<forall>t \<in> set gt. tn_type t = ''group'' \<and> tn_count t = length (tn_items t)"
    by simp_all
  from collectMeshes_ids [OF u]
  have ui: "distinct (map it_id un)" "set (map it_id un) = set (meshIds ?all) - set P"
    by simp_all
  have m: "mset (treeIds ?tree) = mset (treeIds gt @ map it_id un)"
    using categoryTree_mset [of ex un]
    by (simp add: treeIds_def)
  have "distinct (treeIds gt @ map it_id un)"
    using gi ui by auto
  then have d: "distinct (treeIds ?tree)"
    using m by (metis mset_eq_imp_distinct_iff)
  have "set (treeIds ?tree) = set (treeIds gt @ map it_id un)"
    using m by (rule mset_eq_setD)
  then have s: "set (treeIds ?tree) = set (meshIds ?all)"
    using gi ui by auto
  have counts: "\<forall>t \<in> set ?tree. tn_count t = length (tn_items t)"
    using gi(4) categoryTree_count [of ex un] by auto
  have rest: "mset (treeIds ?tree) = mset (meshIds ?all)
        \<and> length (concat (map tn_items ?tree))
          = length (filter (\<lambda>p. n_isMesh (info (fst p))) ?all)
        \<and> sum_list (map tn_count ?tree) = length (filter (\<lambda>p. n_isMesh (info (fst p))) ?all)"
    if dm: "distinct (meshIds ?all)"
  proof -
    have e: "mset (treeIds ?tree) = mset (meshIds ?all)"
      using d dm s by (simp add: set_eq_iff_mset_eq_distinct)
    then have "length (treeIds ?tree) = length (meshIds ?all)"
      by (rule mset_eq_length)
    then have l: "length (concat (map tn_items ?tree))
          = length (filter (\<lambda>p. n_isMesh (info (fst p))) ?all)"
      by (simp add: treeIds_def meshIds_def)
    show ?thesis
      using e l sum_counts [OF counts] by simp
  qed
  show ?thesis
    unfolding tree using d s rest by blast
qed

theorem partition_invariant_witness:
  "distinct (meshIds (traverse [] exScene))
   \<and> length (filter (\<lambda>p. n_isMesh (info (fst p))) (traverse [] exScene)) = 4
   \<and> treeIds (br_tree (buildModelTree None (\<lambda>_. False) [] exScene)) = [''w1'', ''w2'', ''c1'', ''d1'']
   \<and> sum_list (map tn_count (br_tree (buildModelTree None (\<lambda>_. False) [] exScene))) = 4"
proof -
  have d: "distinct (meshIds (traverse [] exScene))"
    by code_simp
  have l: "length (filter (\<lambda>p. n_isMesh (info (fst p))) (traverse [] exScene)) = 4"
    by code_simp
  have i: "treeIds (br_tree (buildModelTree None (\<lambda>_. False) [] exScene))
             = [''w1'', ''w2'', ''c1'', ''d1'']"
    by code_simp
  show ?thesis
    using partition_invariant [of None "\<lambda>_. False" "[]" exScene] d l i by simp
qed


















subsection \<open>Visibility toggles\<close>

lemma readObject_plain:
  "objectsMap st k \<noteq> None \<or> k \<notin> set prototypeNames \<Longrightarrow>
     readObject st k = map_option MeshObject (objectsMap st k)"
  by (auto simp: readObject_def prototypeNames_def split: option.splits)

lemma setItemVisibility_plain:
  "objectsMap st (it_id it) \<noteq> None \<or> it_id it \<notin> set prototypeNames \<Longrightarrow>
     setItemVisibility nv st it =
       Inr (case objectsMap st (it_id it) of
              None \<Rightarrow> st
            | Some obj \<Rightarrow>
                st\<lparr>objectsMap := (objectsMap st)(it_id it \<mapsto> obj\<lparr>n_visible := nv\<rparr>),
                   objectVisibility := (objectVisibility st)(it_id it \<mapsto> nv)\<rparr>)"
  by (auto simp: setItemVisibility_def readObject_plain setVisible_def split: option.splits)

lemma forEachItem_plain:
  "\<forall>it \<in> set its. objectsMap st (it_id it) \<noteq> None \<or> it_id it \<notin> set prototypeNames \<Longrightarrow>
     \<exists>st'. forEachItem nv its st = Inr st'
       \<and> (\<forall>k. objectsMap st' k =
             (if k \<in> it_id ` set its then map_option (\<lambda>obj. obj\<lparr>n_visible := nv\<rparr>) (objectsMap st k)
              else objectsMap st k))
       \<and> (\<forall>k. objectVisibility st' k =
             (if k \<in> it_id ` set its \<and> objectsMap st k \<noteq> None then Some nv
              else objectVisibility st k))
       \<and> builtinVisible st' = builtinVisible st
       \<and> modelTree st' = modelTree st"
proof (induction its arbitrary: st)
  case Nil
  then show ?case by simp
next
  case (Cons a its)
  define st1 where "st1 =
     (case objectsMap st (it_id a) of
        None \<Rightarrow> st
      | Some obj \<Rightarrow>
          st\<lparr>objectsMap := (objectsMap st)(it_id a \<mapsto> obj\<lparr>n_visible := nv\<rparr>),
             objectVisibility := (objectVisibility st)(it_id a \<mapsto> nv)\<rparr>)"
  have a: "objectsMap st (it_id a) \<noteq> None \<or> it_id a \<notin> set prototypeNames"
    using Cons.prems by simp
  have s: "setItemVisibility nv st a = Inr st1"
    unfolding st1_def by (rule setItemVisibility_plain [OF a])
  have om: "objectsMap st1 j =
      (if j = it_id a then map_option (\<lambda>obj. obj\<lparr>n_visible := nv\<rparr>) (objectsMap st j)
       else objectsMap st j)" for j
    unfolding st1_def by (simp split: option.splits)
  have ov: "objectVisibility st1 j =
      (if j = it_id a \<and> objectsMap st j \<noteq> None then Some nv else objectVisibility st j)" for j
    unfolding st1_def by (auto split: option.splits)
  have bv: "builtinVisible st1 = builtinVisible st"
    unfolding st1_def by (simp split: option.splits)
  have mt: "modelTree st1 = modelTree st"
    unfolding st1_def by (simp split: option.splits)
  have "\<forall>it \<in> set its. objectsMap st1 (it_id it) \<noteq> None \<or> it_id it \<notin> set prototypeNames"
    using Cons.prems by (simp add: om)
  from Cons.IH [OF this, unfolded om ov bv mt]
  obtain st' where r: "forEachItem nv its st1 = Inr st'"
    and o: "\<And>k. objectsMap st' k =
       (if k \<in> it_id ` set its
        then map_option (\<lambda>obj. obj\<lparr>n_visible := nv\<rparr>)
               (if k = it_id a then map_option (\<lambda>obj. obj\<lparr>n_visible := nv\<rparr>) (objectsMap st k)
                else objectsMap st k)
        else if k = it_id a then map_option (\<lambda>obj. obj\<lparr>n_visible := nv\<rparr>) (objectsMap st k)
             else objectsMap st k)"
    and v: "\<And>k. objectVisibility st' k =
       (if k \<in> it_id ` set its
           \<and> (if k = it_id a then map_option (\<lambda>obj. obj\<lparr>n_visible := nv\<rparr>) (objectsMap st k)
               else objectsMap st k) \<noteq> None
        then Some nv
        else if k = it_id a \<and> objectsMap st k \<noteq> None then Some nv else objectVisibility st k)"
    and b: "builtinVisible st' = builtinVisible st"
    and m: "modelTree st' = modelTree st"
    by blast
  have f: "forEachItem nv (a # its) st = Inr st'"
    by (simp add: s r)
  have o': "objectsMap st' k =
             (if k \<in> it_id ` set (a # its)
              then map_option (\<lambda>obj. obj\<lparr>n_visible := nv\<rparr>) (objectsMap st k)
              else objectsMap st k)" for k
    unfolding o by (cases "objectsMap st k") auto
  have v': "objectVisibility st' k =
             (if k \<in> it_id ` set (a # its) \<and> objectsMap st k \<noteq> None then Some nv
              else objectVisibility st k)" for k
    unfolding v by (cases "objectsMap st k") auto
  show ?case
    using f o' v' b m by blast
qed

lemma allVisible_plain:
  "\<forall>it \<in> set (tn_items cat). objectsMap st (it_id it) \<noteq> None \<or> it_id it \<notin> set prototypeNames \<Longrightarrow>
     allVisible st cat = (\<forall>m \<in> set (tn_items cat). \<exists>obj. objectsMap st (it_id m) = Some obj \<and> n_visible obj)"
  by (auto simp: allVisible_def list_all_iff readObject_plain getVisible_def split: option.splits)

lemma exState_find: "find (\<lambda>cat. tn_id cat = ''Walls'') (modelTree exState) = Some exGroup"
  by (simp add: exState_def exGroup_def)

lemma exShownState_find:
  "find (\<lambda>cat. tn_id cat = ''Walls'') (modelTree exShownState) = Some exGroup"
  by (simp add: exShownState_def exGroup_def)

lemma exGroup_items:
  "tn_items exGroup = [exItem ''Wall A'' ''u1'' True, exItem ''Wall B'' ''u2'' True,
                       exItem ''Wall C'' ''u3'' False]"
  by (simp add: exGroup_def)

text \<open>
  Claim C8. Take an identifier that the tree knows, no member of whose group is read
  from \<open>Object.prototype\<close> (each is held in the object map, or has an identity that is
  none of the names \<open>prototypeNames\<close>). \<open>toggleCategoryVisibility\<close> returns, and it sets
  the \<open>visible\<close> flag of every member held in the object map, and the member's entry of
  the visibility map, to the negation of "every member of the group is held in the
  object map with \<open>visible\<close> true"; the objects and entries of other identities, the tree
  and the members of \<open>Object.prototype\<close> stay as they are. In the example states a group
  of three members, two visible and one hidden, ends with all three visible, and the
  same group with all three visible ends with all three hidden.
\<close>

theorem toggleCategoryVisibility_members:
  "find (\<lambda>cat. tn_id cat = categoryId) (modelTree st) = Some cat
   \<and> (\<forall>it \<in> set (tn_items cat).
         objectsMap st (it_id it) \<noteq> None \<or> it_id it \<notin> set prototypeNames) \<longrightarrow>
     (\<exists>st'. toggleCategoryVisibility categoryId st = Inr st'
       \<and> (\<forall>it \<in> set (tn_items cat). \<forall>obj. objectsMap st (it_id it) = Some obj \<longrightarrow>
           objectsMap st' (it_id it)
             = Some (obj\<lparr>n_visible :=
                  \<not> (\<forall>m \<in> set (tn_items cat). \<exists>ob. objectsMap st (it_id m) = Some ob \<and> n_visible ob)\<rparr>)
           \<and> objectVisibility st' (it_id it)
             = Some (\<not> (\<forall>m \<in> set (tn_items cat). \<exists>ob. objectsMap st (it_id m) = Some ob \<and> n_visible ob)))
       \<and> (\<forall>k. k \<notin> it_id ` set (tn_items cat) \<longrightarrow>
           objectsMap st' k = objectsMap st k \<and> objectVisibility st' k = objectVisibility st k)
       \<and> modelTree st' = modelTree st
       \<and> builtinVisible st' = builtinVisible st)"
proof
  assume h: "find (\<lambda>cat. tn_id cat = categoryId) (modelTree st) = Some cat
   \<and> (\<forall>it \<in> set (tn_items cat).
         objectsMap st (it_id it) \<noteq> None \<or> it_id it \<notin> set prototypeNames)"
  then have f: "find (\<lambda>cat. tn_id cat = categoryId) (modelTree st) = Some cat"
    and p: "\<forall>it \<in> set (tn_items cat).
         objectsMap st (it_id it) \<noteq> None \<or> it_id it \<notin> set prototypeNames"
    by simp_all
  define nv where
    "nv = (\<not> (\<forall>m \<in> set (tn_items cat). \<exists>ob. objectsMap st (it_id m) = Some ob \<and> n_visible ob))"
  have t: "toggleCategoryVisibility categoryId st = forEachItem nv (tn_items cat) st"
    by (simp add: toggleCategoryVisibility_def f allVisible_plain [OF p] nv_def)
  from forEachItem_plain [OF p, of nv]
  obtain st' where r: "forEachItem nv (tn_items cat) st = Inr st'"
    and o: "\<And>k. objectsMap st' k =
             (if k \<in> it_id ` set (tn_items cat)
              then map_option (\<lambda>obj. obj\<lparr>n_visible := nv\<rparr>) (objectsMap st k)
              else objectsMap st k)"
    and v: "\<And>k. objectVisibility st' k =
             (if k \<in> it_id ` set (tn_items cat) \<and> objectsMap st k \<noteq> None then Some nv
              else objectVisibility st k)"
    and b: "builtinVisible st' = builtinVisible st"
    and m: "modelTree st' = modelTree st"
    by blast
  have "toggleCategoryVisibility categoryId st = Inr st'
       \<and> (\<forall>it \<in> set (tn_items cat). \<forall>obj. objectsMap st (it_id it) = Some obj \<longrightarrow>
           objectsMap st' (it_id it) = Some (obj\<lparr>n_visible := nv\<rparr>)
           \<and> objectVisibility st' (it_id it) = Some nv)
       \<and> (\<forall>k. k \<notin> it_id ` set (tn_items cat) \<longrightarrow>
           objectsMap st' k = objectsMap st k \<and> objectVisibility st' k = objectVisibility st k)
       \<and> modelTree st' = modelTree st
       \<and> builtinVisible st' = builtinVisible st"
    by (simp add: t r o v b m)
  then show "\<exists>st'. toggleCategoryVisibility categoryId st = Inr st'
       \<and> (\<forall>it \<in> set (tn_items cat). \<forall>obj. objectsMap st (it_id it) = Some obj \<longrightarrow>
           objectsMap st' (it_id it)
             = Some (obj\<lparr>n_visible :=
                  \<not> (\<forall>m \<in> set (tn_items cat). \<exists>ob. objectsMap st (it_id m) = Some ob \<and> n_visible ob)\<rparr>)
           \<and> objectVisibility st' (it_id it)
             = Some (\<not> (\<forall>m \<in> set (tn_items cat). \<exists>ob. objectsMap st (it_id m) = Some ob \<and> n_visible ob)))
       \<and> (\<forall>k. k \<notin> it_id ` set (tn_items cat) \<longrightarrow>
           objectsMap st' k = objectsMap st k \<and> objectVisibility st' k = objectVisibility st k)
       \<and> modelTree st' = modelTree st
       \<and> builtinVisible st' = builtinVisible st"
    unfolding nv_def by (rule exI)
qed


theorem toggleCategoryVisibility_members_witness:
  "find (\<lambda>cat. tn_id cat = ''Walls'') (modelTree exState) = Some exGroup
   \<and> map (\<lambda>it. map_option n_visible (objectsMap exState (it_id it))) (tn_items exGroup)
       = [Some True, Some True, Some False]
   \<and> (\<exists>st'. toggleCategoryVisibility ''Walls'' exState = Inr st'
        \<and> map (\<lambda>it. map_option n_visible (objectsMap st' (it_id it))) (tn_items exGroup)
            = [Some True, Some True, Some True]
        \<and> map (\<lambda>it. objectVisibility st' (it_id it)) (tn_items exGroup)
            = [Some True, Some True, Some True])
   \<and> find (\<lambda>cat. tn_id cat = ''Walls'') (modelTree exShownState) = Some exGroup
   \<and> map (\<lambda>it. map_option n_visible (objectsMap exShownState (it_id it))) (tn_items exGroup)
       = [Some True, Some True, Some True]
   \<and> (\<exists>st'. toggleCategoryVisibility ''Walls'' exShownState = Inr st'
        \<and> map (\<lambda>it. map_option n_visible (objectsMap st' (it_id it))) (tn_items exGroup)
            = [Some False, Some False, Some False]
        \<and> map (\<lambda>it. objectVisibility st' (it_id it)) (tn_items exGroup)
            = [Some False, Some False, Some False])"
proof -
  have ids: "it_id (exItem nm u vis) = u" for nm u vis
    by (simp add: exItem_def)
  have om: "objectsMap exState ''u1'' = Some (exMesh ''Wall A'' ''u1'' True)"
      "objectsMap exState ''u2'' = Some (exMesh ''Wall B'' ''u2'' True)"
      "objectsMap exState ''u3'' = Some (exMesh ''Wall C'' ''u3'' False)"
    by (simp_all add: exState_def)
  have om': "objectsMap exShownState ''u1'' = Some (exMesh ''Wall A'' ''u1'' True)"
      "objectsMap exShownState ''u2'' = Some (exMesh ''Wall B'' ''u2'' True)"
      "objectsMap exShownState ''u3'' = Some (exMesh ''Wall C'' ''u3'' True)"
    by (simp_all add: exShownState_def)
  have vis: "n_visible (exMesh nm u v) = v" for nm u v
    by (simp add: exMesh_def)
  have h: "\<forall>it \<in> set (tn_items exGroup).
      objectsMap exState (it_id it) \<noteq> None \<or> it_id it \<notin> set prototypeNames"
    by (simp add: exGroup_items ids om)
  have h': "\<forall>it \<in> set (tn_items exGroup).
      objectsMap exShownState (it_id it) \<noteq> None \<or> it_id it \<notin> set prototypeNames"
    by (simp add: exGroup_items ids om')
  have nv: "(\<not> (\<forall>m \<in> set (tn_items exGroup).
      \<exists>ob. objectsMap exState (it_id m) = Some ob \<and> n_visible ob)) = True"
    by (simp add: exGroup_items ids om vis)
  have nv': "(\<not> (\<forall>m \<in> set (tn_items exGroup).
      \<exists>ob. objectsMap exShownState (it_id m) = Some ob \<and> n_visible ob)) = False"
    by (simp add: exGroup_items ids om' vis)
  from toggleCategoryVisibility_members [of "''Walls''" exState exGroup, THEN mp,
      OF conjI, OF exState_find h, unfolded nv]
  obtain st1 where r1: "toggleCategoryVisibility ''Walls'' exState = Inr st1"
    and m1: "\<forall>it \<in> set (tn_items exGroup). \<forall>obj. objectsMap exState (it_id it) = Some obj \<longrightarrow>
           objectsMap st1 (it_id it) = Some (obj\<lparr>n_visible := True\<rparr>)
           \<and> objectVisibility st1 (it_id it) = Some True"
    by blast
  from toggleCategoryVisibility_members [of "''Walls''" exShownState exGroup, THEN mp,
      OF conjI, OF exShownState_find h', unfolded nv']
  obtain st2 where r2: "toggleCategoryVisibility ''Walls'' exShownState = Inr st2"
    and m2: "\<forall>it \<in> set (tn_items exGroup). \<forall>obj. objectsMap exShownState (it_id it) = Some obj \<longrightarrow>
           objectsMap st2 (it_id it) = Some (obj\<lparr>n_visible := False\<rparr>)
           \<and> objectVisibility st2 (it_id it) = Some False"
    by blast
  have a: "map (\<lambda>it. map_option n_visible (objectsMap st1 (it_id it))) (tn_items exGroup)
            = [Some True, Some True, Some True]
        \<and> map (\<lambda>it. objectVisibility st1 (it_id it)) (tn_items exGroup)
            = [Some True, Some True, Some True]"
    using m1 by (simp add: exGroup_items ids om)
  have b: "map (\<lambda>it. map_option n_visible (objectsMap st2 (it_id it))) (tn_items exGroup)
            = [Some False, Some False, Some False]
        \<and> map (\<lambda>it. objectVisibility st2 (it_id it)) (tn_items exGroup)
            = [Some False, Some False, Some False]"
    using m2 by (simp add: exGroup_items ids om')
  have c: "map (\<lambda>it. map_option n_visible (objectsMap exState (it_id it))) (tn_items exGroup)
       = [Some True, Some True, Some False]"
    "map (\<lambda>it. map_option n_visible (objectsMap exShownState (it_id it))) (tn_items exGroup)
       = [Some True, Some True, Some True]"
    by (simp_all add: exGroup_items ids om om' vis)
  show ?thesis
    using a b c r1 r2 exState_find exShownState_find by simp
qed

text \<open>
  Claim C10, amended. \<open>toggleObjectVisibility\<close> on an identity that the object map does
  not hold and that is none of the names \<open>prototypeNames\<close>, and
  \<open>toggleCategoryVisibility\<close> on an identifier that no node of the tree has, return the
  state they were given: no object, no entry of the visibility map and no tree node
  changes, and neither call raises.
\<close>

theorem unknown_identity_noop:
  "(objectsMap st objectId = None \<and> objectId \<notin> set prototypeNames \<longrightarrow>
      toggleObjectVisibility objectId st = Inr st)
   \<and> (categoryId \<notin> set (map tn_id (modelTree st)) \<longrightarrow>
        toggleCategoryVisibility categoryId st = Inr st)"
proof -
  have "find (\<lambda>cat. tn_id cat = categoryId) (modelTree st) = None"
    if "categoryId \<notin> set (map tn_id (modelTree st))"
    using that by (auto simp: find_None_iff)
  moreover have "readObject st objectId = None"
    if "objectsMap st objectId = None" "objectId \<notin> set prototypeNames"
    using that by (simp add: readObject_plain)
  ultimately show ?thesis
    by (simp add: toggleObjectVisibility_def toggleCategoryVisibility_def)
qed

theorem unknown_identity_noop_witness:
  "objectsMap exState ''u9'' = None
   \<and> ''u9'' \<notin> set prototypeNames
   \<and> ''Doors'' \<notin> set (map tn_id (modelTree exState))
   \<and> toggleObjectVisibility ''u9'' exState = Inr exState
   \<and> toggleCategoryVisibility ''Doors'' exState = Inr exState"
  using unknown_identity_noop [of exState "''u9''" "''Doors''"]
  by (simp add: exState_def exGroup_def prototypeNames_def objectPrototypeMembers_def)

text \<open>
  The claim as it stands fails at the identity \<open>constructor\<close>: the object map does not
  hold it, the read finds the member of \<open>Object.prototype\<close>, and the toggle sets the
  member's \<open>visible\<close> property and adds an entry to the visibility map.
\<close>

theorem inherited_member_counterexample:
  "objectsMap exState ''constructor'' = None
   \<and> objectVisibility exState ''constructor'' = None
   \<and> builtinVisible exState ''constructor'' = None
   \<and> toggleObjectVisibility ''constructor'' exState
       = Inr (exState\<lparr>builtinVisible := [''constructor'' \<mapsto> True],
                     objectVisibility := (objectVisibility exState)(''constructor'' \<mapsto> True)\<rparr>)
   \<and> toggleObjectVisibility ''constructor'' exState \<noteq> Inr exState"
proof -
  have r: "readObject exState ''constructor'' = Some (BuiltinObject ''constructor'')"
    by (simp add: readObject_def exState_def objectPrototypeMembers_def)
  have g: "\<not> getVisible exState (BuiltinObject ''constructor'')"
    by (simp add: getVisible_def exState_def)
  have e: "builtinVisible exState = Map.empty"
    by (simp add: exState_def)
  have t: "toggleObjectVisibility ''constructor'' exState
       = Inr (exState\<lparr>builtinVisible := [''constructor'' \<mapsto> True],
                     objectVisibility := (objectVisibility exState)(''constructor'' \<mapsto> True)\<rparr>)"
    by (simp add: toggleObjectVisibility_def r g setVisible_def e)
  have o: "objectsMap exState ''constructor'' = None" "objectVisibility exState ''constructor'' = None"
    "builtinVisible exState ''constructor'' = None"
    by (simp_all add: exState_def)
  have "objectVisibility (exState\<lparr>builtinVisible := [''constructor'' \<mapsto> True],
           objectVisibility := (objectVisibility exState)(''constructor'' \<mapsto> True)\<rparr>) ''constructor''
        \<noteq> objectVisibility exState ''constructor''"
    by (simp add: o)
  then have "exState\<lparr>builtinVisible := [''constructor'' \<mapsto> True],
           objectVisibility := (objectVisibility exState)(''constructor'' \<mapsto> True)\<rparr> \<noteq> exState"
    by metis
  with t o show ?thesis
    by simp
qed

text \<open>
  After a toggle under the key \<open>__proto__\<close> has given \<open>Object.prototype\<close> a true \<open>visible\<close>,
  a toggle under the key \<open>visible\<close> raises.
\<close>

lemma inherited_flag_raises:
  "\<exists>st1. toggleObjectVisibility ''__proto__'' exState = Inr st1
     \<and> toggleObjectVisibility ''visible'' st1 = Inl (TypeError, st1)"
proof -
  have r: "readObject exState ''__proto__'' = Some (BuiltinObject ''__proto__'')"
    by (simp add: readObject_def exState_def objectPrototypeMembers_def)
  have g: "\<not> getVisible exState (BuiltinObject ''__proto__'')"
    by (simp add: getVisible_def exState_def)
  define st1 where "st1 = exState\<lparr>builtinVisible := (builtinVisible exState)(''__proto__'' \<mapsto> True),
      objectVisibility := (objectVisibility exState)(''__proto__'' \<mapsto> True)\<rparr>"
  have t: "toggleObjectVisibility ''__proto__'' exState = Inr st1"
    by (simp add: toggleObjectVisibility_def r g setVisible_def st1_def)
  have r1: "readObject st1 ''visible'' = Some InheritedTrue"
    by (simp add: readObject_def st1_def exState_def objectPrototypeMembers_def)
  have "toggleObjectVisibility ''visible'' st1 = Inl (TypeError, st1)"
    by (simp add: toggleObjectVisibility_def r1 setVisible_def)
  with t show ?thesis
    by blast
qed

end
